theory Spec2Isabelle
  imports Complex_Main "HOL-Library.Word"
begin

unbundle bit_operations_syntax

section \<open>Python primitives used by the miner\<close>

text \<open>
  A Python \<open>str\<close> is modelled as a \<open>string\<close>: one \<open>char\<close> per code point, for the
  code points 0 to 255. Python integers are unbounded: they are \<open>int\<close>, and Python's
  \<open>&\<close> and \<open>~\<close> are the two's-complement \<open>AND\<close> and \<open>NOT\<close> of \<open>int\<close>.
\<close>

subsection \<open>\<open>int(s, 16)\<close>\<close>

text \<open>
  \<open>int(s, 16)\<close> first rewrites the string to ASCII: a code point below 127 is kept, a
  non-ASCII white space (below 256 these are U+0085 and U+00A0) becomes a blank, a
  non-ASCII decimal digit becomes its ASCII digit (there is none below 256), and at any other
  code point the text is cut off after a question mark.
\<close>

fun transform_decimal_and_space_to_ascii :: "string \<Rightarrow> string" where
  "transform_decimal_and_space_to_ascii [] = []"
| "transform_decimal_and_space_to_ascii (c # cs) =
     (if (of_char c :: nat) < 127 then c # transform_decimal_and_space_to_ascii cs
      else if (of_char c :: nat) = 133 \<or> (of_char c :: nat) = 160
        then CHR '' '' # transform_decimal_and_space_to_ascii cs
      else [CHR ''?''])"

text \<open>The C locale's white space: blank, \<open>\t\<close>, \<open>\n\<close>, \<open>\v\<close>, \<open>\f\<close>, \<open>\r\<close>.\<close>

definition py_isspace_ascii :: "char \<Rightarrow> bool" where
  "py_isspace_ascii c \<longleftrightarrow> (of_char c :: nat) = 32 \<or> (9 \<le> (of_char c :: nat) \<and> (of_char c :: nat) \<le> 13)"

text \<open>
  The digit table of the integer parser: \<open>0\<close> to \<open>9\<close> are 0 to 9, the letters of either
  case are 10 to 35, and every other character is 37 (no digit in any base).
\<close>

definition digit_value :: "char \<Rightarrow> nat" where
  "digit_value c =
     (let n = (of_char c :: nat) in
      if 48 \<le> n \<and> n \<le> 57 then n - 48
      else if 97 \<le> n \<and> n \<le> 122 then n - 87
      else if 65 \<le> n \<and> n \<le> 90 then n - 55
      else 37)"

text \<open>
  The scan over the digits in base 16. \<open>prev\<close> tells whether the character before was an
  underscore: two in a row and one at the end are errors. The result is the value read,
  the number of digits, and the text after the digits.
\<close>

fun scan_digits16 :: "string \<Rightarrow> bool \<Rightarrow> int \<Rightarrow> nat \<Rightarrow> (int \<times> nat \<times> string) option" where
  "scan_digits16 [] prev acc n = (if prev then None else Some (acc, n, []))"
| "scan_digits16 (c # cs) prev acc n =
     (if c = CHR ''_'' then (if prev then None else scan_digits16 cs True acc n)
      else if digit_value c < 16
        then scan_digits16 cs False (16 * acc + int (digit_value c)) (Suc n)
      else if prev then None
      else Some (acc, n, c # cs))"

text \<open>An optional sign, read after the leading white space.\<close>

fun strip_sign :: "string \<Rightarrow> bool \<times> string" where
  "strip_sign [] = (False, [])"
| "strip_sign (c # cs) =
     (if c = CHR ''+'' then (False, cs)
      else if c = CHR ''-'' then (True, cs)
      else (False, c # cs))"

text \<open>An optional \<open>0x\<close> or \<open>0X\<close>, after which one underscore is allowed.\<close>

fun strip_prefix16 :: "string \<Rightarrow> string" where
  "strip_prefix16 (a # b # cs) =
     (if a = CHR ''0'' \<and> (b = CHR ''x'' \<or> b = CHR ''X'')
      then (case cs of [] \<Rightarrow> [] | d # ds \<Rightarrow> if d = CHR ''_'' then ds else d # ds)
      else a # b # cs)"
| "strip_prefix16 s = s"

text \<open>\<open>None\<close> is the \<open>ValueError\<close> of \<open>int(s, 16)\<close>.\<close>

definition py_int16 :: "string \<Rightarrow> int option" where
  "py_int16 s =
     (let t = dropWhile py_isspace_ascii (transform_decimal_and_space_to_ascii s);
          (neg, u) = strip_sign t;
          v = strip_prefix16 u
      in if v \<noteq> [] \<and> hd v = CHR ''_'' then None
         else case scan_digits16 v False 0 0 of
           None \<Rightarrow> None
         | Some (val, n, rest) \<Rightarrow>
             if n = 0 then None
             else if dropWhile py_isspace_ascii rest \<noteq> [] then None
             else Some (if neg then - val else val))"

section \<open>Difficulty evaluator\<close>

text \<open>
  \<^verbatim>\<open>
  def hash_meets_difficulty(hash_hex: str, difficulty_hex: str) -> bool:
      if not hash_hex or len(hash_hex) < 8:
          return False
      try:
          left4 = int(hash_hex[0:8], 16)
          mask = int(difficulty_hex, 16)
      except Exception:
          return False
      return (left4 & (~mask & 0xFFFFFFFF)) == 0
  \<close>
\<close>

definition hash_meets_difficulty :: "string \<Rightarrow> string \<Rightarrow> bool" where
  "hash_meets_difficulty hash_hex difficulty_hex =
     (if hash_hex = [] \<or> length hash_hex < 8 then False
      else case py_int16 (take 8 hash_hex) of
        None \<Rightarrow> False
      | Some left4 \<Rightarrow>
          (case py_int16 difficulty_hex of
             None \<Rightarrow> False
           | Some maskv \<Rightarrow> (left4 AND (NOT maskv AND 0xFFFFFFFF)) = 0))"

subsection \<open>Reading hexadecimal digits, as the specification words it\<close>

text \<open>
  These three definitions follow the specification, not the code: a hex character is one
  of \<open>0\<close> to \<open>9\<close>, \<open>a\<close> to \<open>f\<close>, \<open>A\<close> to \<open>F\<close>, and a string of hex characters is
  read as an unsigned number, most significant digit first.
\<close>

definition is_hex_digit :: "char \<Rightarrow> bool" where
  "is_hex_digit c \<longleftrightarrow>
     (let n = (of_char c :: nat)
      in (48 \<le> n \<and> n \<le> 57) \<or> (97 \<le> n \<and> n \<le> 102) \<or> (65 \<le> n \<and> n \<le> 70))"

definition hex_digit_value :: "char \<Rightarrow> nat" where
  "hex_digit_value c =
     (let n = (of_char c :: nat)
      in if n \<le> 57 then n - 48 else if 97 \<le> n then n - 87 else n - 55)"

definition hex_value :: "string \<Rightarrow> nat" where
  "hex_value s = foldl (\<lambda>a c. 16 * a + hex_digit_value c) 0 s"

subsection \<open>\<open>str.strip\<close>, \<open>str.rstrip\<close> and \<open>str.endswith\<close>\<close>

text \<open>
  The white space of \<open>str.strip()\<close>, for the code points below 256: \<open>\t\<close> to \<open>\r\<close>, the
  separators U+001C to U+001F, the blank, U+0085 and U+00A0.
\<close>

definition py_isspace :: "char \<Rightarrow> bool" where
  "py_isspace c \<longleftrightarrow>
     (let n = (of_char c :: nat)
      in (9 \<le> n \<and> n \<le> 13) \<or> (28 \<le> n \<and> n \<le> 32) \<or> n = 133 \<or> n = 160)"

definition strip :: "string \<Rightarrow> string" where
  "strip s = rev (dropWhile py_isspace (rev (dropWhile py_isspace s)))"

definition rstrip_slash :: "string \<Rightarrow> string" where
  "rstrip_slash s = rev (dropWhile (\<lambda>c. c = CHR ''/'') (rev s))"

definition endswith_Z :: "string \<Rightarrow> bool" where
  "endswith_Z s \<longleftrightarrow> s \<noteq> [] \<and> last s = CHR ''Z''"

subsection \<open>Dictionaries and exceptions\<close>

text \<open>
  A challenge is a Python \<open>dict\<close> from strings to strings. \<open>d[k]\<close> raises \<open>KeyError\<close>
  on a missing key; \<open>sys.exit(1)\<close> raises \<open>SystemExit\<close>.
\<close>

type_synonym challenge = "string \<rightharpoonup> string"

datatype py_error = KeyError string | SystemExit int

definition subscript :: "challenge \<Rightarrow> string \<Rightarrow> py_error + string" where
  "subscript d k = (case d k of None \<Rightarrow> Inl (KeyError k) | Some v \<Rightarrow> Inr v)"

definition get_default :: "challenge \<Rightarrow> string \<Rightarrow> string \<Rightarrow> string" where
  "get_default d k dflt = (case d k of None \<Rightarrow> dflt | Some v \<Rightarrow> v)"

section \<open>Preimage builder\<close>

text \<open>
  \<^verbatim>\<open>
  def build_preimage(nonce_hex: str, address: str, challenge: dict) -> str:
      parts = [
          nonce_hex,
          address,
          challenge["challenge_id"],
          challenge["difficulty"],
          challenge["no_pre_mine"],
          challenge["latest_submission"],
          str(challenge.get("no_pre_mine_hour", "")),
      ]
      return "".join(parts)
  \<close>
  The list is built left to right, so the first missing key is the one reported.
\<close>

definition build_preimage :: "string \<Rightarrow> string \<Rightarrow> challenge \<Rightarrow> py_error + string" where
  "build_preimage nonce_hex address challenge =
     (case subscript challenge ''challenge_id'' of Inl e \<Rightarrow> Inl e | Inr cid \<Rightarrow>
      (case subscript challenge ''difficulty'' of Inl e \<Rightarrow> Inl e | Inr dif \<Rightarrow>
      (case subscript challenge ''no_pre_mine'' of Inl e \<Rightarrow> Inl e | Inr npm \<Rightarrow>
      (case subscript challenge ''latest_submission'' of Inl e \<Rightarrow> Inl e | Inr ls \<Rightarrow>
        Inr (concat [nonce_hex, address, cid, dif, npm, ls,
                     get_default challenge ''no_pre_mine_hour'' ''''])))))"

section \<open>Challenge source\<close>

text \<open>
  \<^verbatim>\<open>
  def read_challenges_from_csv(csv_file: str):
      challenges = []
      try:
          with open(csv_file, 'r', encoding='utf-8') as f:
              reader = csv.reader(f)
              header = next(reader)  # Read header row
              for row in reader:
                  if len(row) < 5:  # At least 4 columns required
                      continue
                  challenge = {
                      "challenge_id": row[0].strip() if len(row) > 0 else "",
                      "difficulty": row[1].strip() if len(row) > 1 else "",
                      "no_pre_mine": row[2].strip() if len(row) > 2 else "",
                      "no_pre_mine_hour": row[3].strip() if len(row) > 3 else "",
                      "latest_submission": row[4].strip() if len(row) > 4 else "2099-12-31T23:59:59.000Z"
                  }
                  if challenge["challenge_id"] and challenge["difficulty"] and challenge["no_pre_mine"]:
                      challenges.append(challenge)
      except Exception as e:
          sys.exit(1)
      return challenges
  \<close>
  The file is given as the rows that \<open>csv.reader\<close> yields, header first; \<open>None\<close> stands
  for a file that cannot be opened or read. A file with no row at all makes \<open>next(reader)\<close>
  raise, which ends in \<open>sys.exit(1)\<close> as well.
\<close>

definition column :: "string list \<Rightarrow> nat \<Rightarrow> string \<Rightarrow> string" where
  "column row i dflt = (if length row > i then strip (row ! i) else dflt)"

definition row_challenge :: "string list \<Rightarrow> challenge" where
  "row_challenge row =
     [''challenge_id'' \<mapsto> column row 0 '''',
      ''difficulty'' \<mapsto> column row 1 '''',
      ''no_pre_mine'' \<mapsto> column row 2 '''',
      ''no_pre_mine_hour'' \<mapsto> column row 3 '''',
      ''latest_submission'' \<mapsto> column row 4 ''2099-12-31T23:59:59.000Z'']"

text \<open>The validation \<open>c["challenge_id"] and c["difficulty"] and c["no_pre_mine"]\<close>: an empty
  string is false, and \<open>and\<close> stops at the first false operand.\<close>

definition required_fields :: "challenge \<Rightarrow> py_error + bool" where
  "required_fields challenge =
     (case subscript challenge ''challenge_id'' of Inl e \<Rightarrow> Inl e | Inr cid \<Rightarrow>
      (if cid = [] then Inr False else
      (case subscript challenge ''difficulty'' of Inl e \<Rightarrow> Inl e | Inr dif \<Rightarrow>
      (if dif = [] then Inr False else
      (case subscript challenge ''no_pre_mine'' of Inl e \<Rightarrow> Inl e | Inr npm \<Rightarrow>
      Inr (npm \<noteq> []))))))"

fun read_rows :: "string list list \<Rightarrow> challenge list \<Rightarrow> py_error + challenge list" where
  "read_rows [] challenges = Inr challenges"
| "read_rows (row # rows) challenges =
     (if length row < 5 then read_rows rows challenges
      else let challenge = row_challenge row
           in case required_fields challenge of
                Inl e \<Rightarrow> Inl e
              | Inr ok \<Rightarrow>
                  if ok then read_rows rows (challenges @ [challenge])
                  else read_rows rows challenges)"

text \<open>Every exception inside the \<open>try\<close> ends in \<open>sys.exit(1)\<close>.\<close>

definition read_challenges_from_csv :: "string list list option \<Rightarrow> py_error + challenge list" where
  "read_challenges_from_csv file =
     (case file of
        None \<Rightarrow> Inl (SystemExit 1)
      | Some [] \<Rightarrow> Inl (SystemExit 1)
      | Some (header # rows) \<Rightarrow>
          (case read_rows rows [] of
             Inl e \<Rightarrow> Inl (SystemExit 1)
           | Inr challenges \<Rightarrow> Inr challenges))"

section \<open>The worker and its environment\<close>

text \<open>
  One worker is modelled, running alone. What it shares with the process (the stop signal,
  the counters of \<open>Stats\<close>, the error log) and the trace of what it does to the outside,
  in order (a payload handed to the oracle client, a URL posted, a duration slept), is the
  \<open>world\<close>; the remaining fields count the calls made to each source of input. Printing
  is left out. Times and durations are the rational numbers that the floats denote: the
  code only compares them and tests them for zero.
\<close>

datatype event = Exchange string | Post string | Sleep rat

record world =
  stop_event :: bool
  hashes :: nat
  solutions :: nat
  errors :: "(string \<rightharpoonup> string) list"
  trace :: "event list"
  acquires :: nat
  time_reads :: nat
  nonce_draws :: nat

text \<open>
  What the outside answers. \<open>daemon k p\<close> is the outcome of the \<open>k\<close>-th call of
  \<open>_send_pre_and_recv_hash\<close>, with payload \<open>p\<close>: no connection could be made, the
  exchange on the socket raised (send or receive error, time-out, peer closed, undecodable
  bytes), or a first line came back, already stripped. \<open>http_post k url\<close> is the outcome
  of the \<open>k\<close>-th \<open>requests.post\<close>: a response with its status code and body, or an
  exception with its message. \<open>fromisoformat_timestamp s\<close> is
  \<open>datetime.fromisoformat(s).timestamp()\<close>, \<open>None\<close> when that raises.
\<close>

datatype daemon_reply = Unreachable | Broken | Line string

datatype post_reply = Response int string | RequestException string

text \<open>The payloads handed to the oracle client so far, and the URLs posted so far.\<close>

fun exchanges_of :: "event list \<Rightarrow> string list" where
  "exchanges_of [] = []"
| "exchanges_of (Exchange p # es) = p # exchanges_of es"
| "exchanges_of (Post u # es) = exchanges_of es"
| "exchanges_of (Sleep d # es) = exchanges_of es"

fun posts_of :: "event list \<Rightarrow> string list" where
  "posts_of [] = []"
| "posts_of (Exchange p # es) = posts_of es"
| "posts_of (Post u # es) = u # posts_of es"
| "posts_of (Sleep d # es) = posts_of es"

definition requests :: "world \<Rightarrow> string list" where
  "requests w = exchanges_of (trace w)"

definition posted :: "world \<Rightarrow> string list" where
  "posted w = posts_of (trace w)"

record env =
  challenge_getter :: "nat \<Rightarrow> challenge option"
  daemon :: "nat \<Rightarrow> string \<Rightarrow> daemon_reply"
  http_post :: "nat \<Rightarrow> string \<Rightarrow> post_reply"
  time_time :: "nat \<Rightarrow> rat"
  now_iso :: "nat \<Rightarrow> string"
  getrandbits64 :: "nat \<Rightarrow> 64 word"
  fromisoformat_timestamp :: "string \<Rightarrow> rat option"

record worker =
  base_url :: string
  address :: string
  submit_on_find :: bool

definition NONCE_BATCH :: nat where
  "NONCE_BATCH = 1024"

definition sleep :: "rat \<Rightarrow> world \<Rightarrow> world" where
  "sleep d w = w\<lparr>trace := trace w @ [Sleep d]\<rparr>"

definition add_hashes :: "nat \<Rightarrow> world \<Rightarrow> world" where
  "add_hashes n w = w\<lparr>hashes := hashes w + n\<rparr>"

definition inc_solutions :: "world \<Rightarrow> world" where
  "inc_solutions w = w\<lparr>solutions := solutions w + 1\<rparr>"

text \<open>
  \<^verbatim>\<open>
  def log_error(self, address, challenge_id, nonce, error):
      with self.lock:
          self.errors.append({'timestamp': now_iso(), 'address': address,
              'challenge_id': challenge_id, 'nonce': nonce, 'error': error})
  \<close>
\<close>

definition log_error :: "env \<Rightarrow> string \<Rightarrow> string \<Rightarrow> string \<Rightarrow> string \<Rightarrow> world \<Rightarrow> world" where
  "log_error e addr challenge_id nonce err w =
     w\<lparr>errors := errors w @
        [[''timestamp'' \<mapsto> now_iso e (length (errors w)),
          ''address'' \<mapsto> addr,
          ''challenge_id'' \<mapsto> challenge_id,
          ''nonce'' \<mapsto> nonce,
          ''error'' \<mapsto> err]]\<rparr>"

text \<open>
  \<^verbatim>\<open>
  def hex64_nonce():
      return "{:016x}".format(random.getrandbits(64))
  \<close>
\<close>

definition hex_char :: "nat \<Rightarrow> char" where
  "hex_char d = (if d < 10 then char_of (48 + d) else char_of (87 + d))"

definition format_016x :: "64 word \<Rightarrow> string" where
  "format_016x v = map (\<lambda>i. hex_char (unat (drop_bit (4 * i) v AND 15))) (rev [0..<16])"

definition hex64_nonce :: "env \<Rightarrow> world \<Rightarrow> string \<times> world" where
  "hex64_nonce e w =
     (format_016x (getrandbits64 e (nonce_draws w)), w\<lparr>nonce_draws := Suc (nonce_draws w)\<rparr>)"

text \<open>
  \<^verbatim>\<open>
  def post_solution(base_url, address, challenge_id, nonce):
      url = f"{base_url.rstrip('/')}/solution/{address}/{challenge_id}/{nonce}"
      try:
          r = requests.post(url, json={}, timeout=10)
          try:
              return r.status_code, r.json()
          except:
              return r.status_code, r.text
      except Exception as e:
          error_msg = str(e)
          error_logger.log_error(address, challenge_id, nonce, error_msg)
          return None, {"error": error_msg}
  \<close>
  The second component of the result is only printed by the caller: it is the body of the
  response, or the message of the exception.
\<close>

definition solution_url :: "string \<Rightarrow> string \<Rightarrow> string \<Rightarrow> string \<Rightarrow> string" where
  "solution_url burl addr challenge_id nonce =
     rstrip_slash burl @ ''/solution/'' @ addr @ ''/'' @ challenge_id @ ''/'' @ nonce"

definition post_solution ::
  "env \<Rightarrow> string \<Rightarrow> string \<Rightarrow> string \<Rightarrow> string \<Rightarrow> world \<Rightarrow> (int option \<times> string) \<times> world" where
  "post_solution e burl addr challenge_id nonce w =
     (let url = solution_url burl addr challenge_id nonce;
          w1 = w\<lparr>trace := trace w @ [Post url]\<rparr>
      in case http_post e (length (posted w)) url of
           Response status_code body \<Rightarrow> ((Some status_code, body), w1)
         | RequestException error_msg \<Rightarrow>
             ((None, error_msg), log_error e addr challenge_id nonce error_msg w1))"

text \<open>
  The oracle client \<open>_send_pre_and_recv_hash\<close>, by its outcome: a failed connection sleeps
  0.1 s and returns \<open>None\<close>; an exception during the exchange drops the socket and returns
  \<open>None\<close>; otherwise the stripped first line is returned.
\<close>

definition send_pre_and_recv_hash :: "env \<Rightarrow> string \<Rightarrow> world \<Rightarrow> string option \<times> world" where
  "send_pre_and_recv_hash e preimage w =
     (let w1 = w\<lparr>trace := trace w @ [Exchange preimage]\<rparr>
      in case daemon e (length (requests w)) preimage of
           Unreachable \<Rightarrow> (None, sleep (1 / 10) w1)
         | Broken \<Rightarrow> (None, w1)
         | Line l \<Rightarrow> (Some l, w1))"

subsection \<open>Submission protocol\<close>

text \<open>
  \<^verbatim>\<open>
  attempts = 0
  sc = None
  while attempts < 3:
      try:
          sc, resp = post_solution(self.base_url, self.address, challenge_id, nonce)
          if sc == 201:
              stop_event.set()
              break
          attempts += 1
          time.sleep(1)
      except Exception as e:
          attempts += 1
          time.sleep(1)
  if sc != 201:
      stop_event.set()
  \<close>
  \<open>post_solution\<close> catches every exception itself, so the handler of the loop has nothing
  to catch but a failing \<open>print\<close>, which is not modelled.
\<close>

function submit_loop ::
  "env \<Rightarrow> worker \<Rightarrow> string \<Rightarrow> string \<Rightarrow> nat \<Rightarrow> int option \<Rightarrow> world \<Rightarrow> int option \<times> world" where
  "submit_loop e wk challenge_id nonce attempts sc w =
     (if attempts < 3 then
        (case post_solution e (base_url wk) (address wk) challenge_id nonce w of
           ((sc', resp), w1) \<Rightarrow>
             if sc' = Some 201 then (sc', w1\<lparr>stop_event := True\<rparr>)
             else submit_loop e wk challenge_id nonce (attempts + 1) sc' (sleep 1 w1))
      else (sc, w))"
  by pat_completeness auto
termination
  by (relation "measure (\<lambda>(e, wk, challenge_id, nonce, attempts, sc, w). 3 - attempts)") auto

declare submit_loop.simps [simp del]

definition submit_found :: "env \<Rightarrow> worker \<Rightarrow> string \<Rightarrow> string \<Rightarrow> world \<Rightarrow> world" where
  "submit_found e wk challenge_id nonce w =
     (case submit_loop e wk challenge_id nonce 0 None w of
        (sc, w1) \<Rightarrow> if sc \<noteq> Some 201 then w1\<lparr>stop_event := True\<rparr> else w1)"

subsection \<open>The attempt loop\<close>

text \<open>
  The deadline of a challenge:
  \<^verbatim>\<open>
  try:
      ls = latest_submission
      if ls.endswith("Z"):
          ls = ls[:-1] + "+00:00"
      latest_ts = datetime.fromisoformat(ls).timestamp()
  except Exception:
      latest_ts = None
  \<close>
\<close>

definition parse_latest_ts :: "env \<Rightarrow> string \<Rightarrow> rat option" where
  "parse_latest_ts e latest_submission =
     (let ls = (if endswith_Z latest_submission then butlast latest_submission @ ''+00:00''
                else latest_submission)
      in fromisoformat_timestamp e ls)"

text \<open>
  The time check \<open>latest_ts and time.time() > latest_ts\<close>. A float is false when it is
  zero, as \<open>None\<close> is, and \<open>and\<close> reads the clock only when its left operand is true.
\<close>

definition expired :: "env \<Rightarrow> rat option \<Rightarrow> world \<Rightarrow> bool \<times> world" where
  "expired e latest_ts w =
     (case latest_ts of
        None \<Rightarrow> (False, w)
      | Some ts \<Rightarrow>
          if ts = 0 then (False, w)
          else (time_time e (time_reads w) > ts, w\<lparr>time_reads := Suc (time_reads w)\<rparr>))"

text \<open>
  One pass of the \<open>for\<close> loop after its two checks; the Boolean of the result tells
  whether the pass ends in \<open>break\<close>.
  \<^verbatim>\<open>
  nonce = hex64_nonce()
  pre = build_preimage(nonce, self.address, challenge)
  rom = challenge.get("no_pre_mine", "")
  pre_with_rom = f"{rom}|{pre}"
  hash_hex = self._send_pre_and_recv_hash(pre_with_rom)
  if hash_hex is None:
      time.sleep(0.01)
      continue
  tries += 1
  stats.add_hashes(1)
  if hash_meets_difficulty(hash_hex, difficulty):
      stats.inc_solutions()
      if self.submit_on_find:
          ... submission protocol ...
      time.sleep(0.5)
      break
  \<close>
\<close>

definition attempt_body ::
  "env \<Rightarrow> worker \<Rightarrow> challenge \<Rightarrow> string \<Rightarrow> string \<Rightarrow> world \<Rightarrow> py_error + (bool \<times> world)" where
  "attempt_body e wk challenge difficulty challenge_id w =
     (case hex64_nonce e w of (nonce, w1) \<Rightarrow>
      (case build_preimage nonce (address wk) challenge of
         Inl err \<Rightarrow> Inl err
       | Inr pre \<Rightarrow>
          (let rom = get_default challenge ''no_pre_mine'' '''';
               pre_with_rom = rom @ ''|'' @ pre
           in case send_pre_and_recv_hash e pre_with_rom w1 of
                (None, w2) \<Rightarrow> Inr (False, sleep (1 / 100) w2)
              | (Some hash_hex, w2) \<Rightarrow>
                  (let w3 = add_hashes 1 w2
                   in if hash_meets_difficulty hash_hex difficulty then
                        (let w4 = inc_solutions w3;
                             w5 = (if submit_on_find wk
                                   then submit_found e wk challenge_id nonce w4 else w4)
                         in Inr (True, sleep (1 / 2) w5))
                      else Inr (False, w3)))))"

text \<open>
  \<^verbatim>\<open>
  for _ in range(NONCE_BATCH):
      if stop_event.is_set():
          break
      if latest_ts and time.time() > latest_ts:
          break
      ... one pass ...
  \<close>
  The numeric argument is the number of passes left.
\<close>

fun attempt_loop ::
  "env \<Rightarrow> worker \<Rightarrow> challenge \<Rightarrow> string \<Rightarrow> string \<Rightarrow> rat option \<Rightarrow> nat \<Rightarrow> world \<Rightarrow> py_error + world" where
  "attempt_loop e wk challenge difficulty challenge_id latest_ts 0 w = Inr w"
| "attempt_loop e wk challenge difficulty challenge_id latest_ts (Suc n) w =
     (if stop_event w then Inr w
      else case expired e latest_ts w of
             (True, w1) \<Rightarrow> Inr w1
           | (False, w1) \<Rightarrow>
               (case attempt_body e wk challenge difficulty challenge_id w1 of
                  Inl err \<Rightarrow> Inl err
                | Inr (True, w2) \<Rightarrow> Inr w2
                | Inr (False, w2) \<Rightarrow>
                    attempt_loop e wk challenge difficulty challenge_id latest_ts n w2))"

subsection \<open>The main loop of a worker\<close>

text \<open>
  One pass of \<open>while not stop_event.is_set()\<close> in \<open>Worker.run\<close>:
  \<^verbatim>\<open>
  challenge = self.challenge_getter()
  if challenge is None:
      time.sleep(0.5)
      continue
  if "latest_submission" not in challenge:
      time.sleep(0.5)
      continue
  difficulty = challenge["difficulty"]
  challenge_id = challenge["challenge_id"]
  latest_submission = challenge["latest_submission"]
  ... latest_ts ...
  for _ in range(NONCE_BATCH): ...
  \<close>
  A \<open>KeyError\<close> is not caught in \<open>run\<close>: it ends the worker.
\<close>

definition worker_pass :: "env \<Rightarrow> worker \<Rightarrow> world \<Rightarrow> py_error + world" where
  "worker_pass e wk w =
     (let w1 = w\<lparr>acquires := Suc (acquires w)\<rparr>
      in case challenge_getter e (acquires w) of
           None \<Rightarrow> Inr (sleep (1 / 2) w1)
         | Some challenge \<Rightarrow>
             if challenge ''latest_submission'' = None then Inr (sleep (1 / 2) w1)
             else
               (case subscript challenge ''difficulty'' of Inl err \<Rightarrow> Inl err | Inr difficulty \<Rightarrow>
               (case subscript challenge ''challenge_id'' of Inl err \<Rightarrow> Inl err | Inr challenge_id \<Rightarrow>
               (case subscript challenge ''latest_submission'' of Inl err \<Rightarrow> Inl err
                | Inr latest_submission \<Rightarrow>
                   attempt_loop e wk challenge difficulty challenge_id
                     (parse_latest_ts e latest_submission) NONCE_BATCH w1))))"

text \<open>
  The first \<open>k\<close> passes of the main loop, or fewer when the stop signal is seen or the
  worker dies before.
\<close>

fun worker_passes :: "nat \<Rightarrow> env \<Rightarrow> worker \<Rightarrow> world \<Rightarrow> py_error + world" where
  "worker_passes 0 e wk w = Inr w"
| "worker_passes (Suc k) e wk w =
     (if stop_event w then Inr w
      else case worker_pass e wk w of
             Inl err \<Rightarrow> Inl err
           | Inr w1 \<Rightarrow> worker_passes k e wk w1)"

text \<open>
  \<open>Worker.run\<close>: the main loop runs until the stop signal is set, which may be never;
  \<open>None\<close> is a run that does not end.
\<close>

partial_function (option) run :: "env \<Rightarrow> worker \<Rightarrow> world \<Rightarrow> (py_error + world) option" where
  "run e wk w =
     (if stop_event w then Some (Inr w)
      else case worker_pass e wk w of
             Inl err \<Rightarrow> Some (Inl err)
           | Inr w1 \<Rightarrow> run e wk w1)"

section \<open>Notions used in the statements\<close>

text \<open>A reply of the submission endpoint that carries the status code 201.\<close>

definition returns_201 :: "post_reply \<Rightarrow> bool" where
  "returns_201 r = (case r of Response status_code body \<Rightarrow> status_code = 201 | RequestException m \<Rightarrow> False)"

text \<open>A reply of the oracle client that carries no line.\<close>

definition no_result :: "daemon_reply \<Rightarrow> bool" where
  "no_result r = (case r of Line l \<Rightarrow> False | Unreachable \<Rightarrow> True | Broken \<Rightarrow> True)"

section \<open>Scripted environments\<close>

text \<open>
  The environments of the test scenarios of the specification: one published challenge,
  an oracle and a submission endpoint that answer by position, a clock that stands at
  3 November 2025, and a parser that knows the timestamps of the challenges below.
\<close>

definition scripted_env :: "challenge \<Rightarrow> (nat \<Rightarrow> daemon_reply) \<Rightarrow> (nat \<Rightarrow> post_reply) \<Rightarrow> env" where
  "scripted_env challenge oracle endpoint =
     \<lparr>challenge_getter = (\<lambda>k. Some challenge),
      daemon = (\<lambda>k p. oracle k),
      http_post = (\<lambda>k url. endpoint k),
      time_time = (\<lambda>k. 1762128000),
      now_iso = (\<lambda>k. ''2025-11-03T00:00:00+00:00''),
      getrandbits64 = (\<lambda>k. word_of_nat k),
      fromisoformat_timestamp =
        (\<lambda>s. if s = ''1970-01-01T00:00:00+00:00'' then Some 0
             else if s = ''2099-12-31T23:59:59.000+00:00'' then Some 4102444799
             else None)\<rparr>"

definition challenge_with_deadline :: "string \<Rightarrow> challenge" where
  "challenge_with_deadline latest_submission =
     [''challenge_id'' \<mapsto> ''D01C10'',
      ''difficulty'' \<mapsto> ''0000FFFF'',
      ''no_pre_mine'' \<mapsto> ''rom'',
      ''no_pre_mine_hour'' \<mapsto> ''509681483'',
      ''latest_submission'' \<mapsto> latest_submission]"

definition the_worker :: worker where
  "the_worker = \<lparr>base_url = ''https://host/'', address = ''addr1'', submit_on_find = True\<rparr>"

definition fresh_world :: world where
  "fresh_world =
     \<lparr>stop_event = False, hashes = 0, solutions = 0, errors = [], trace = [],
      acquires = 0, time_reads = 0, nonce_draws = 0\<rparr>"

text \<open>The characters that can occur in a string that \<open>int(s, 16)\<close> accepts.\<close>

definition int16_char :: "char \<Rightarrow> bool" where
  "int16_char c \<longleftrightarrow>
     is_hex_digit c \<or> py_isspace_ascii c \<or> c = CHR ''+'' \<or> c = CHR ''-'' \<or> c = CHR ''_''
     \<or> c = CHR ''x'' \<or> c = CHR ''X'' \<or> (of_char c :: nat) = 133 \<or> (of_char c :: nat) = 160"

section \<open>Properties of the difficulty evaluator\<close>

subsection \<open>The integer parser on strings of hex digits\<close>

lemma hex_digit_cases:
  assumes "is_hex_digit c"
  shows "digit_value c = hex_digit_value c" "digit_value c < 16" "hex_digit_value c < 16"
     "(of_char c :: nat) < 127"
     "c \<noteq> CHR ''_''" "c \<noteq> CHR ''+''" "c \<noteq> CHR ''-''" "c \<noteq> CHR ''x''" "c \<noteq> CHR ''X''"
     "\<not> py_isspace_ascii c"
proof -
  let ?n = "of_char c :: nat"
  have r: "(48 \<le> ?n \<and> ?n \<le> 57) \<or> (97 \<le> ?n \<and> ?n \<le> 102) \<or> (65 \<le> ?n \<and> ?n \<le> 70)"
    using assms by (simp add: is_hex_digit_def Let_def)
  show "digit_value c = hex_digit_value c"
    using r by (simp add: digit_value_def hex_digit_value_def Let_def) arith
  show "digit_value c < 16" using r by (simp add: digit_value_def Let_def) arith
  show "hex_digit_value c < 16" using r by (simp add: hex_digit_value_def Let_def) arith
  show "?n < 127" using r by arith
  have "?n \<noteq> 95" "?n \<noteq> 43" "?n \<noteq> 45" "?n \<noteq> 120" "?n \<noteq> 88" using r by arith+
  then show "c \<noteq> CHR ''_''" "c \<noteq> CHR ''+''" "c \<noteq> CHR ''-''" "c \<noteq> CHR ''x''" "c \<noteq> CHR ''X''"
    by auto
  show "\<not> py_isspace_ascii c" using r by (simp add: py_isspace_ascii_def) arith
qed

lemma transform_hex:
  "list_all is_hex_digit s \<Longrightarrow> transform_decimal_and_space_to_ascii s = s"
  by (induction s) (simp_all add: hex_digit_cases)

lemma scan_hex:
  "list_all is_hex_digit s \<Longrightarrow> s \<noteq> [] \<or> \<not> prev \<Longrightarrow>
   scan_digits16 s prev acc n =
     Some (foldl (\<lambda>a c. 16 * a + int (hex_digit_value c)) acc s, n + length s, [])"
  by (induction s arbitrary: prev acc n) (simp_all add: hex_digit_cases)

lemma foldl_hex_int:
  "foldl (\<lambda>a c. 16 * a + int (hex_digit_value c)) (int k) s
     = int (foldl (\<lambda>a c. 16 * a + hex_digit_value c) k s)"
proof (induction s arbitrary: k)
  case Nil show ?case by simp
next
  case (Cons c cs)
  have "16 * int k + int (hex_digit_value c) = int (16 * k + hex_digit_value c)" by simp
  then show ?case unfolding foldl_Cons by (simp only: Cons.IH)
qed

lemma foldl_hex_bound:
  "list_all is_hex_digit s \<Longrightarrow>
   foldl (\<lambda>a c. 16 * a + hex_digit_value c) k s < (k + 1) * 16 ^ length s"
proof (induction s arbitrary: k)
  case Nil show ?case by simp
next
  case (Cons c cs)
  have d: "hex_digit_value c < 16" using Cons.prems by (simp add: hex_digit_cases)
  have "foldl (\<lambda>a c. 16 * a + hex_digit_value c) (16 * k + hex_digit_value c) cs
          < (16 * k + hex_digit_value c + 1) * 16 ^ length cs"
    using Cons.IH [of "16 * k + hex_digit_value c"] Cons.prems by simp
  also have "\<dots> \<le> (16 * k + 16) * 16 ^ length cs"
    using d by (intro mult_le_mono1) simp
  also have "\<dots> = (k + 1) * 16 ^ length (c # cs)" by (simp add: algebra_simps)
  finally show ?case by simp
qed

lemma hex_value_8_bound:
  assumes "list_all is_hex_digit s" and "length s \<le> 8"
  shows "hex_value s < 2 ^ 32"
proof -
  have "hex_value s < 16 ^ length s"
    using foldl_hex_bound [OF assms(1), of 0] by (simp add: hex_value_def)
  also have "(16::nat) ^ length s \<le> 16 ^ 8"
    using assms(2) by (intro power_increasing) simp_all
  finally show ?thesis by simp
qed

lemma py_int16_hex:
  assumes "list_all is_hex_digit s" and "s \<noteq> []"
  shows "py_int16 s = Some (int (hex_value s))"
proof -
  obtain c cs where s: "s = c # cs" using assms(2) by (cases s) auto
  have c: "is_hex_digit c" using assms(1) s by simp
  have d: "dropWhile py_isspace_ascii s = s" using c s by (simp add: hex_digit_cases)
  have g: "strip_sign s = (False, s)" using c s by (simp add: hex_digit_cases)
  have p: "strip_prefix16 s = s"
  proof (cases cs)
    case Nil then show ?thesis using s by simp
  next
    case (Cons b bs)
    then have "is_hex_digit b" using assms(1) s by simp
    then show ?thesis using s Cons by (simp add: hex_digit_cases)
  qed
  have h: "hd s \<noteq> CHR ''_''" using c s by (simp add: hex_digit_cases)
  have sc: "scan_digits16 s False 0 0 = Some (int (hex_value s), length s, [])"
    using scan_hex [OF assms(1), of False 0 0] foldl_hex_int [of 0 s]
    by (simp add: hex_value_def)
  show ?thesis
    using assms(2) by (simp add: py_int16_def transform_hex [OF assms(1)] d g p h sc)
qed

subsection \<open>The mask test on 32-bit words\<close>

lemma all_ones_32: "(0xFFFFFFFF::int) = mask 32"
  by (simp add: mask_eq_exp_minus_1)

lemma mask_test_word:
  "((l::int) AND (NOT m AND 0xFFFFFFFF)) = 0
     \<longleftrightarrow> (word_of_int l :: 32 word) AND NOT (word_of_int m) = 0"
proof -
  have "(word_of_int l :: 32 word) AND NOT (word_of_int m) = word_of_int (l AND NOT m)"
    by (simp add: of_int_and_eq of_int_not_eq)
  also have "\<dots> = 0 \<longleftrightarrow> take_bit 32 (l AND NOT m) = 0"
    using word_of_int_eq_iff [where 'a = 32, of "l AND NOT m" 0] by simp
  also have "take_bit 32 (l AND NOT m) = l AND (NOT m AND mask 32)"
    by (simp add: take_bit_eq_mask and.assoc)
  finally show ?thesis by (simp add: all_ones_32)
qed

lemma mask_test_low_bits:
  assumes "(m1::int) mod 2 ^ 32 = m2 mod 2 ^ 32"
  shows "NOT m1 AND 0xFFFFFFFF = NOT m2 AND (0xFFFFFFFF::int)"
proof -
  have "take_bit 32 m1 = take_bit 32 m2" using assms by (simp add: take_bit_eq_mod)
  then have "take_bit 32 (NOT m1) = take_bit 32 (NOT m2)"
    by (metis take_bit_not_take_bit)
  then show ?thesis by (simp add: take_bit_eq_mask all_ones_32)
qed

lemma hash_meets_difficulty_parsed:
  assumes "8 \<le> length hash_hex"
    and "py_int16 (take 8 hash_hex) = Some left4"
    and "py_int16 difficulty_hex = Some maskv"
  shows "hash_meets_difficulty hash_hex difficulty_hex
           \<longleftrightarrow> (left4 AND (NOT maskv AND 0xFFFFFFFF)) = 0"
proof -
  have "hash_hex \<noteq> []" and "\<not> length hash_hex < 8" using assms(1) by auto
  then show ?thesis by (simp add: hash_meets_difficulty_def assms(2,3))
qed

text \<open>
  Claim C1. For a hash whose first 8 characters are hex digits and a difficulty string that
  the base-16 parser accepts as the integer \<open>maskv\<close>, the evaluator returns true exactly when
  the unsigned 32-bit number read from those 8 characters, ANDed with the 32-bit complement
  of the mask, is 0. With the mask \<open>0xFFFFFFFF\<close> every such hash meets the difficulty; with
  the mask 0 a hash meets it exactly when its first 8 characters encode 0.
\<close>

theorem hash_meets_difficulty_mask_test:
  assumes "8 \<le> length hash_hex"
    and "list_all is_hex_digit (take 8 hash_hex)"
    and "py_int16 difficulty_hex = Some maskv"
  shows "(hash_meets_difficulty hash_hex difficulty_hex
            \<longleftrightarrow> (word_of_nat (hex_value (take 8 hash_hex)) :: 32 word)
                   AND NOT (word_of_int maskv) = 0)
       \<and> (maskv = 0xFFFFFFFF \<longrightarrow> hash_meets_difficulty hash_hex difficulty_hex)
       \<and> (maskv = 0 \<longrightarrow>
            (hash_meets_difficulty hash_hex difficulty_hex
               \<longleftrightarrow> hex_value (take 8 hash_hex) = 0))"
proof -
  let ?l = "hex_value (take 8 hash_hex)"
  have ne: "take 8 hash_hex \<noteq> []" using assms(1) by auto
  have l: "py_int16 (take 8 hash_hex) = Some (int ?l)"
    by (rule py_int16_hex [OF assms(2) ne])
  have b: "?l < 2 ^ 32" by (rule hex_value_8_bound [OF assms(2)]) simp
  have m: "hash_meets_difficulty hash_hex difficulty_hex
             \<longleftrightarrow> (int ?l AND (NOT maskv AND 0xFFFFFFFF)) = 0"
    by (rule hash_meets_difficulty_parsed [OF assms(1) l assms(3)])
  have w: "hash_meets_difficulty hash_hex difficulty_hex
             \<longleftrightarrow> (word_of_nat ?l :: 32 word) AND NOT (word_of_int maskv) = 0"
    using m mask_test_word [of "int ?l" maskv] by simp
  have ones: "maskv = 0xFFFFFFFF \<longrightarrow> hash_meets_difficulty hash_hex difficulty_hex"
  proof
    assume "maskv = 0xFFFFFFFF"
    then have "NOT maskv AND (0xFFFFFFFF::int) = 0" by (simp add: all_ones_32)
    then show "hash_meets_difficulty hash_hex difficulty_hex" using m by simp
  qed
  have zero: "maskv = 0 \<longrightarrow>
      (hash_meets_difficulty hash_hex difficulty_hex \<longleftrightarrow> ?l = 0)"
  proof
    assume z: "maskv = 0"
    have "int ?l AND (NOT 0 AND 0xFFFFFFFF) = take_bit 32 (int ?l)"
      by (simp add: take_bit_eq_mask all_ones_32)
    also have "\<dots> = int ?l"
      using b by (simp add: take_bit_int_eq_self)
    finally show "hash_meets_difficulty hash_hex difficulty_hex \<longleftrightarrow> ?l = 0"
      using m z by simp
  qed
  show ?thesis using w ones zero by blast
qed

theorem hash_meets_difficulty_mask_test_witness:
  "(hash_meets_difficulty ''ffff0000ab'' ''FFFF0000''
      \<longleftrightarrow> (word_of_nat (hex_value (take 8 ''ffff0000ab'')) :: 32 word)
             AND NOT (word_of_int 0xFFFF0000) = 0)
   \<and> hash_meets_difficulty ''0123abcdef'' ''ffffffff''
   \<and> (hash_meets_difficulty ''00000000ff'' ''0''
        \<longleftrightarrow> hex_value (take 8 ''00000000ff'') = 0)"
proof -
  have d1: "py_int16 ''FFFF0000'' = Some 0xFFFF0000" by code_simp
  have d2: "py_int16 ''ffffffff'' = Some 0xFFFFFFFF" by code_simp
  have d3: "py_int16 ''0'' = Some 0" by code_simp
  have h1: "list_all is_hex_digit (take 8 ''ffff0000ab'')" by code_simp
  have h2: "list_all is_hex_digit (take 8 ''0123abcdef'')" by code_simp
  have h3: "list_all is_hex_digit (take 8 ''00000000ff'')" by code_simp
  have n1: "8 \<le> length ''ffff0000ab''" by simp
  have n2: "8 \<le> length ''0123abcdef''" by simp
  have n3: "8 \<le> length ''00000000ff''" by simp
  show ?thesis
    using hash_meets_difficulty_mask_test [OF n1 h1 d1]
          hash_meets_difficulty_mask_test [OF n2 h2 d2]
          hash_meets_difficulty_mask_test [OF n3 h3 d3]
    by blast
qed

text \<open>
  Claim C8, as stated, reads "not valid hex" as "not a string of hex digits". It fails:
  the first 8 characters \<open>00_00_00\<close> contain underscores, the parser accepts them as 0,
  and the hash meets the difficulty 0.
\<close>

theorem hash_meets_difficulty_non_hex_counterexample:
  "\<not> list_all is_hex_digit (take 8 ''00_00_00'') \<and> hash_meets_difficulty ''00_00_00'' ''0''"
  by code_simp

text \<open>
  Claim C8, amended. The evaluator is a total function to the Booleans, and it is false
  whenever the hash is shorter than 8 characters, or the base-16 integer parser rejects the
  first 8 characters of the hash, or it rejects the difficulty string.
\<close>

theorem hash_meets_difficulty_malformed:
  assumes "length hash_hex < 8 \<or> py_int16 (take 8 hash_hex) = None
             \<or> py_int16 difficulty_hex = None"
  shows "\<not> hash_meets_difficulty hash_hex difficulty_hex"
  using assms by (auto simp: hash_meets_difficulty_def split: option.splits)

theorem hash_meets_difficulty_malformed_witness:
  "\<not> hash_meets_difficulty ''0000000'' ''0''
   \<and> \<not> hash_meets_difficulty ''0000000g'' ''0''
   \<and> \<not> hash_meets_difficulty ''00000000'' ''0x''"
proof -
  have a: "length ''0000000'' < 8" by simp
  have b: "py_int16 (take 8 ''0000000g'') = None" by code_simp
  have c: "py_int16 ''0x'' = None" by code_simp
  show ?thesis
    using hash_meets_difficulty_malformed [of "''0000000''" "''0''"]
          hash_meets_difficulty_malformed [of "''0000000g''" "''0''"]
          hash_meets_difficulty_malformed [of "''00000000''" "''0x''"]
          a b c
    by blast
qed

text \<open>
  Claim C10. Two difficulty strings whose parsed values are congruent modulo \<open>2 ^ 32\<close> give
  the same result on every hash: only the low 32 bits of the mask count, and a mask of
  \<open>2 ^ 32\<close> or more is reduced, not rejected.
\<close>

theorem hash_meets_difficulty_mask_mod_2_32:
  assumes "py_int16 d1 = Some m1" and "py_int16 d2 = Some m2"
    and "m1 mod 2 ^ 32 = m2 mod 2 ^ 32"
  shows "hash_meets_difficulty hash_hex d1 = hash_meets_difficulty hash_hex d2"
  using mask_test_low_bits [OF assms(3)]
  by (simp add: hash_meets_difficulty_def assms(1,2) split: option.splits)

theorem hash_meets_difficulty_mask_mod_2_32_witness:
  "hash_meets_difficulty ''ffff0000'' ''1FFFF0000'' = hash_meets_difficulty ''ffff0000'' ''FFFF0000''
   \<and> py_int16 ''1FFFF0000'' = Some 0x1FFFF0000"
proof -
  have d1: "py_int16 ''1FFFF0000'' = Some 0x1FFFF0000" by code_simp
  have d2: "py_int16 ''FFFF0000'' = Some 0xFFFF0000" by code_simp
  have c: "(0x1FFFF0000::int) mod 2 ^ 32 = 0xFFFF0000 mod 2 ^ 32" by simp
  show ?thesis
    using hash_meets_difficulty_mask_mod_2_32 [OF d1 d2 c, of "''ffff0000''"] d1 by simp
qed

subsection \<open>What the integer parser rejects\<close>

lemma digit_is_hex: "digit_value c < 16 \<Longrightarrow> is_hex_digit c"
  by (auto simp: digit_value_def is_hex_digit_def Let_def split: if_splits)

lemma scan_digits16_consumed:
  "scan_digits16 s prev acc n = Some (val, k, rest)
     \<Longrightarrow> \<exists>ds. s = ds @ rest \<and> list_all int16_char ds"
proof (induction s arbitrary: prev acc n)
  case Nil
  then show ?case by (simp split: if_splits)
next
  case (Cons c cs)
  show ?case
  proof (cases "c = CHR ''_''")
    case True
    then have "scan_digits16 cs True acc n = Some (val, k, rest)"
      using Cons.prems by (simp split: if_splits)
    then obtain ds where "cs = ds @ rest" "list_all int16_char ds" using Cons.IH by blast
    then have "c # cs = (c # ds) @ rest \<and> list_all int16_char (c # ds)"
      using True by (simp add: int16_char_def)
    then show ?thesis by blast
  next
    case False
    show ?thesis
    proof (cases "digit_value c < 16")
      case True
      then have "scan_digits16 cs False (16 * acc + int (digit_value c)) (Suc n) = Some (val, k, rest)"
        using Cons.prems False by simp
      then obtain ds where "cs = ds @ rest" "list_all int16_char ds" using Cons.IH by blast
      then have "c # cs = (c # ds) @ rest \<and> list_all int16_char (c # ds)"
        using digit_is_hex [OF True] by (simp add: int16_char_def)
      then show ?thesis by blast
    next
      case d: False
      then have "rest = c # cs" using Cons.prems False by (simp split: if_splits)
      then have "c # cs = [] @ rest \<and> list_all int16_char []" by simp
      then show ?thesis by blast
    qed
  qed
qed

lemma dropWhile_empty_all: "dropWhile P xs = [] \<Longrightarrow> list_all P xs"
  by (induction xs) (simp_all split: if_splits)

lemma strip_prefix16_chars:
  assumes "list_all int16_char (strip_prefix16 u)"
  shows "list_all int16_char u"
proof (cases u)
  case Nil
  then show ?thesis by simp
next
  case (Cons a r)
  show ?thesis
  proof (cases r)
    case Nil
    then show ?thesis using assms Cons by simp
  next
    case r: (Cons b cs)
    show ?thesis
    proof (cases "a = CHR ''0'' \<and> (b = CHR ''x'' \<or> b = CHR ''X'')")
      case True
      have z: "int16_char a" using True by (simp add: int16_char_def is_hex_digit_def)
      have x: "int16_char b" using True by (auto simp: int16_char_def)
      have "list_all int16_char cs"
        using assms Cons r True by (cases cs) (auto simp: int16_char_def split: if_splits)
      then show ?thesis using Cons r z x by simp
    next
      case False
      then show ?thesis using assms Cons r by auto
    qed
  qed
qed

lemma strip_sign_chars:
  "strip_sign t = (neg, u) \<Longrightarrow> list_all int16_char u \<Longrightarrow> list_all int16_char t"
  by (cases t) (auto simp: int16_char_def split: if_splits)

lemma dropWhile_chars:
  "list_all int16_char (dropWhile py_isspace_ascii t) \<Longrightarrow> list_all int16_char t"
  by (induction t) (auto simp: int16_char_def split: if_splits)

lemma transform_chars:
  "list_all int16_char (transform_decimal_and_space_to_ascii s) \<Longrightarrow> list_all int16_char s"
proof (induction s)
  case Nil
  then show ?case by simp
next
  case (Cons c cs)
  have q: "\<not> int16_char CHR ''?''"
    by (simp add: int16_char_def is_hex_digit_def py_isspace_ascii_def)
  show ?case
  proof (cases "(of_char c :: nat) < 127")
    case True
    then show ?thesis using Cons by simp
  next
    case False
    show ?thesis
    proof (cases "(of_char c :: nat) = 133 \<or> (of_char c :: nat) = 160")
      case True
      then have "int16_char c" by (auto simp: int16_char_def)
      then show ?thesis using Cons False True by simp
    next
      case f: False
      then show ?thesis using Cons.prems False q by simp
    qed
  qed
qed

text \<open>A string with a character that is no hex digit, white space, sign, underscore,
  \<open>x\<close> or \<open>X\<close> is rejected.\<close>

lemma py_int16_accepts_chars:
  assumes "py_int16 s = Some v"
  shows "list_all int16_char s"
proof -
  let ?t = "dropWhile py_isspace_ascii (transform_decimal_and_space_to_ascii s)"
  obtain neg u where su: "strip_sign ?t = (neg, u)" by (cases "strip_sign ?t") auto
  let ?v = "strip_prefix16 u"
  obtain val k rest where sc: "scan_digits16 ?v False 0 0 = Some (val, k, rest)"
    and r: "dropWhile py_isspace_ascii rest = []"
    using assms su by (auto simp: py_int16_def Let_def split: if_splits option.splits)
  obtain ds where ds: "?v = ds @ rest" "list_all int16_char ds"
    using scan_digits16_consumed [OF sc] by blast
  have "list_all py_isspace_ascii rest" by (rule dropWhile_empty_all [OF r])
  then have "list_all int16_char rest"
    by (induction rest) (simp_all add: int16_char_def)
  then have "list_all int16_char ?v" using ds by simp
  then have "list_all int16_char u" by (rule strip_prefix16_chars)
  then have "list_all int16_char ?t" by (rule strip_sign_chars [OF su])
  then have "list_all int16_char (transform_decimal_and_space_to_ascii s)"
    by (rule dropWhile_chars)
  then show ?thesis by (rule transform_chars)
qed

lemma py_int16_rejects: "\<not> list_all int16_char s \<Longrightarrow> py_int16 s = None"
  using py_int16_accepts_chars [of s] by (cases "py_int16 s") auto

lemma hash_meets_difficulty_rejects:
  "\<not> list_all int16_char (take 8 hash_hex) \<or> \<not> list_all int16_char difficulty_hex
     \<Longrightarrow> \<not> hash_meets_difficulty hash_hex difficulty_hex"
  using py_int16_rejects [of "take 8 hash_hex"] py_int16_rejects [of difficulty_hex]
  by (auto simp: hash_meets_difficulty_def split: option.splits)

section \<open>Properties of the submission protocol\<close>

lemma exchanges_of_append [simp]: "exchanges_of (xs @ ys) = exchanges_of xs @ exchanges_of ys"
  by (induction xs rule: exchanges_of.induct) simp_all

lemma posts_of_append [simp]: "posts_of (xs @ ys) = posts_of xs @ posts_of ys"
  by (induction xs rule: posts_of.induct) simp_all

lemma sleep_fields [simp]:
  "trace (sleep d w) = trace w @ [Sleep d]"
  "stop_event (sleep d w) = stop_event w"
  "hashes (sleep d w) = hashes w"
  "solutions (sleep d w) = solutions w"
  "errors (sleep d w) = errors w"
  "acquires (sleep d w) = acquires w"
  "time_reads (sleep d w) = time_reads w"
  "nonce_draws (sleep d w) = nonce_draws w"
  "posted (sleep d w) = posted w"
  "requests (sleep d w) = requests w"
  by (simp_all add: sleep_def posted_def requests_def)

lemma post_solution_fields:
  "trace (snd (post_solution e b a c n w)) = trace w @ [Post (solution_url b a c n)]"
  "posted (snd (post_solution e b a c n w)) = posted w @ [solution_url b a c n]"
  "requests (snd (post_solution e b a c n w)) = requests w"
  "stop_event (snd (post_solution e b a c n w)) = stop_event w"
  "hashes (snd (post_solution e b a c n w)) = hashes w"
  "solutions (snd (post_solution e b a c n w)) = solutions w"
  "acquires (snd (post_solution e b a c n w)) = acquires w"
  "time_reads (snd (post_solution e b a c n w)) = time_reads w"
  "nonce_draws (snd (post_solution e b a c n w)) = nonce_draws w"
  by (simp_all add: post_solution_def log_error_def posted_def requests_def Let_def
        split: post_reply.splits)

lemma post_solution_status:
  "fst (fst (post_solution e b a c n w)) = Some 201
     \<longleftrightarrow> returns_201 (http_post e (length (posted w)) (solution_url b a c n))"
  by (simp add: post_solution_def returns_201_def Let_def split: post_reply.splits)

lemma submit_loop_done: "\<not> attempts < 3 \<Longrightarrow> submit_loop e wk c n attempts sc w = (sc, w)"
  by (subst submit_loop.simps) simp

lemma submit_loop_ok:
  assumes "attempts < 3"
    and "returns_201 (http_post e (length (posted w)) (solution_url (base_url wk) (address wk) c n))"
  shows "submit_loop e wk c n attempts sc w
           = (Some 201, (snd (post_solution e (base_url wk) (address wk) c n w))\<lparr>stop_event := True\<rparr>)"
  using assms post_solution_status [of e "base_url wk" "address wk" c n w]
  by (subst submit_loop.simps) (auto split: prod.splits)

lemma submit_loop_fail:
  assumes "attempts < 3"
    and "\<not> returns_201 (http_post e (length (posted w)) (solution_url (base_url wk) (address wk) c n))"
  shows "submit_loop e wk c n attempts sc w
           = submit_loop e wk c n (attempts + 1)
               (fst (fst (post_solution e (base_url wk) (address wk) c n w)))
               (sleep 1 (snd (post_solution e (base_url wk) (address wk) c n w)))"
  using assms post_solution_status [of e "base_url wk" "address wk" c n w]
  by (subst submit_loop.simps) (auto split: prod.splits)





lemma submit_loop_stop:
  "sc \<noteq> Some 201 \<Longrightarrow> fst (submit_loop e wk c n attempts sc w) = Some 201
     \<Longrightarrow> stop_event (snd (submit_loop e wk c n attempts sc w))"
proof (induction "3 - attempts" arbitrary: attempts sc w)
  case 0
  then have "\<not> attempts < 3" by simp
  then show ?case using 0 by (simp add: submit_loop_done)
next
  case (Suc k)
  then have a: "attempts < 3" by simp
  let ?u = "solution_url (base_url wk) (address wk) c n"
  let ?p = "post_solution e (base_url wk) (address wk) c n w"
  show ?case
  proof (cases "returns_201 (http_post e (length (posted w)) ?u)")
    case True
    show ?thesis unfolding submit_loop_ok [OF a True] by simp
  next
    case False
    have k: "k = 3 - (attempts + 1)" using Suc.hyps(2) by simp
    have s: "fst (fst ?p) \<noteq> Some 201" using False by (simp add: post_solution_status)
    show ?thesis
      using Suc.hyps(1) [OF k s] Suc.prems(2) unfolding submit_loop_fail [OF a False] by simp
  qed
qed

lemma submit_loop_frame:
  "requests (snd (submit_loop e wk c n attempts sc w)) = requests w
   \<and> hashes (snd (submit_loop e wk c n attempts sc w)) = hashes w
   \<and> solutions (snd (submit_loop e wk c n attempts sc w)) = solutions w
   \<and> acquires (snd (submit_loop e wk c n attempts sc w)) = acquires w
   \<and> time_reads (snd (submit_loop e wk c n attempts sc w)) = time_reads w
   \<and> nonce_draws (snd (submit_loop e wk c n attempts sc w)) = nonce_draws w"
proof (induction "3 - attempts" arbitrary: attempts sc w)
  case 0
  then have "\<not> attempts < 3" by simp
  then show ?case by (simp add: submit_loop_done)
next
  case (Suc k)
  then have a: "attempts < 3" by simp
  let ?u = "solution_url (base_url wk) (address wk) c n"
  let ?p = "post_solution e (base_url wk) (address wk) c n w"
  show ?case
  proof (cases "returns_201 (http_post e (length (posted w)) ?u)")
    case True
    show ?thesis unfolding submit_loop_ok [OF a True]
      by (simp add: post_solution_fields requests_def)
  next
    case False
    have k: "k = 3 - (attempts + 1)" using Suc.hyps(2) by simp
    show ?thesis unfolding submit_loop_fail [OF a False]
      using Suc.hyps(1) [OF k, of "fst (fst ?p)" "sleep 1 (snd ?p)"]
      by (simp add: post_solution_fields)
  qed
qed

lemma submit_found_alt:
  "submit_found e wk c n w =
     (if fst (submit_loop e wk c n 0 None w) \<noteq> Some 201
      then (snd (submit_loop e wk c n 0 None w))\<lparr>stop_event := True\<rparr>
      else snd (submit_loop e wk c n 0 None w))"
  by (simp add: submit_found_def split: prod.splits)

lemma submit_found_stop: "stop_event (submit_found e wk c n w)"
  using submit_loop_stop [of None e wk c n 0 w] by (simp add: submit_found_alt)

lemma submit_found_fields:
  "trace (submit_found e wk c n w) = trace (snd (submit_loop e wk c n 0 None w))"
  "posted (submit_found e wk c n w) = posted (snd (submit_loop e wk c n 0 None w))"
  "errors (submit_found e wk c n w) = errors (snd (submit_loop e wk c n 0 None w))"
  "requests (submit_found e wk c n w) = requests w"
  "hashes (submit_found e wk c n w) = hashes w"
  "solutions (submit_found e wk c n w) = solutions w"
  "acquires (submit_found e wk c n w) = acquires w"
  "time_reads (submit_found e wk c n w) = time_reads w"
  "nonce_draws (submit_found e wk c n w) = nonce_draws w"
  using submit_loop_frame [of e wk c n 0 None w]
  by (simp_all add: submit_found_alt posted_def requests_def)





text \<open>
  Claim C7, as stated, has every failed attempt recorded in the error log. It fails for
  the attempts that return a status code other than 201: against an endpoint that always
  answers 503, the three attempts are made and the log stays empty.
\<close>

theorem failed_status_not_logged_counterexample:
  "\<not> returns_201 (Response 503 ''down'')
   \<and> posted (submit_found
        (scripted_env (challenge_with_deadline ''2099-12-31T23:59:59.000Z'') (\<lambda>k. Broken)
           (\<lambda>k. Response 503 ''down''))
        the_worker ''D01C10'' ''00000000000000ff'' fresh_world)
      = [''https://host/solution/addr1/D01C10/00000000000000ff'',
         ''https://host/solution/addr1/D01C10/00000000000000ff'',
         ''https://host/solution/addr1/D01C10/00000000000000ff'']
   \<and> errors (submit_found
        (scripted_env (challenge_with_deadline ''2099-12-31T23:59:59.000Z'') (\<lambda>k. Broken)
           (\<lambda>k. Response 503 ''down''))
        the_worker ''D01C10'' ''00000000000000ff'' fresh_world)
      = []"
  by (simp add: submit_found_def submit_loop.simps post_solution_def solution_url_def
        rstrip_slash_def scripted_env_def the_worker_def fresh_world_def sleep_def posted_def
        returns_201_def)

text \<open>
  Claim C7, amended. A submission attempt that ends in a request-level error appends one
  entry to the error log, with the address, the challenge, the nonce and the message; an
  attempt that returns a status code, 201 or not, appends nothing.
\<close>

theorem post_solution_error_log:
  "(http_post e (length (posted w)) (solution_url burl addr challenge_id nonce)
        = RequestException msg
      \<longrightarrow> fst (fst (post_solution e burl addr challenge_id nonce w)) = None
          \<and> errors (snd (post_solution e burl addr challenge_id nonce w))
              = errors w @ [[''timestamp'' \<mapsto> now_iso e (length (errors w)),
                             ''address'' \<mapsto> addr,
                             ''challenge_id'' \<mapsto> challenge_id,
                             ''nonce'' \<mapsto> nonce,
                             ''error'' \<mapsto> msg]])
   \<and> (http_post e (length (posted w)) (solution_url burl addr challenge_id nonce)
        = Response status_code body
      \<longrightarrow> fst (fst (post_solution e burl addr challenge_id nonce w)) = Some status_code
          \<and> errors (snd (post_solution e burl addr challenge_id nonce w)) = errors w)"
  by (simp add: post_solution_def log_error_def Let_def)

theorem post_solution_error_log_witness:
  "errors (snd (post_solution
       (scripted_env (challenge_with_deadline ''2099-12-31T23:59:59.000Z'') (\<lambda>k. Broken)
          (\<lambda>k. RequestException ''timed out''))
       ''https://host/'' ''addr1'' ''D01C10'' ''00000000000000ff'' fresh_world))
     = [[''timestamp'' \<mapsto> ''2025-11-03T00:00:00+00:00'',
         ''address'' \<mapsto> ''addr1'',
         ''challenge_id'' \<mapsto> ''D01C10'',
         ''nonce'' \<mapsto> ''00000000000000ff'',
         ''error'' \<mapsto> ''timed out'']]
   \<and> errors (snd (post_solution
       (scripted_env (challenge_with_deadline ''2099-12-31T23:59:59.000Z'') (\<lambda>k. Broken)
          (\<lambda>k. Response 503 ''down''))
       ''https://host/'' ''addr1'' ''D01C10'' ''00000000000000ff'' fresh_world))
     = []"
proof -
  let ?e1 = "scripted_env (challenge_with_deadline ''2099-12-31T23:59:59.000Z'') (\<lambda>k. Broken)
          (\<lambda>k. RequestException ''timed out'')"
  let ?e2 = "scripted_env (challenge_with_deadline ''2099-12-31T23:59:59.000Z'') (\<lambda>k. Broken)
          (\<lambda>k. Response 503 ''down'')"
  let ?u = "solution_url ''https://host/'' ''addr1'' ''D01C10'' ''00000000000000ff''"
  have 1: "http_post ?e1 (length (posted fresh_world)) ?u = RequestException ''timed out''"
    by (simp add: scripted_env_def)
  have 2: "http_post ?e2 (length (posted fresh_world)) ?u = Response 503 ''down''"
    by (simp add: scripted_env_def)
  have n: "now_iso ?e1 (length (errors fresh_world)) = ''2025-11-03T00:00:00+00:00''"
    by (simp add: scripted_env_def)
  have z: "errors fresh_world = []" by (simp add: fresh_world_def)
  show ?thesis
    using post_solution_error_log [of ?e1 fresh_world "''https://host/''" "''addr1''" "''D01C10''"
            "''00000000000000ff''" "''timed out''" 0 "''''"]
          post_solution_error_log [of ?e2 fresh_world "''https://host/''" "''addr1''" "''D01C10''"
            "''00000000000000ff''" "''x''" 503 "''down''"]
          1 2 n z
    by simp
qed

section \<open>Properties of the challenge source\<close>

text \<open>
  What the reader keeps: the rows of at least five columns whose first three columns are
  not empty once stripped, in their order.
\<close>

lemma required_fields_row:
  "required_fields (row_challenge row)
     = Inr (column row 0 '''' \<noteq> [] \<and> column row 1 '''' \<noteq> [] \<and> column row 2 '''' \<noteq> [])"
  by (simp add: required_fields_def row_challenge_def subscript_def)

lemma read_rows_filter:
  "read_rows rows challenges
     = Inr (challenges @ map row_challenge
         (filter (\<lambda>row. 5 \<le> length row \<and> strip (row ! 0) \<noteq> [] \<and> strip (row ! 1) \<noteq> []
                        \<and> strip (row ! 2) \<noteq> []) rows))"
  by (induction rows arbitrary: challenges)
     (auto simp: required_fields_row column_def Let_def)

text \<open>
  Claim C9 has a row without the deadline column kept, with a far-future deadline. The
  reader skips every row of fewer than five columns, so a row of four columns, with
  identifier, difficulty and domain present, yields no challenge.
\<close>

theorem four_column_row_is_skipped:
  "read_challenges_from_csv
     (Some [[''challengeId'', ''difficulty'', ''noPreMine'', ''noPreMineHour''],
            [''D01C10'', ''0000FFFF'', ''rom'', ''509681483'']])
   = Inr []"
  by (simp add: read_challenges_from_csv_def)

section \<open>Properties of the attempt loop\<close>

lemma build_preimage_ok:
  assumes "challenge ''challenge_id'' = Some cid" and "challenge ''difficulty'' = Some dif"
    and "challenge ''no_pre_mine'' = Some npm" and "challenge ''latest_submission'' = Some ls"
  shows "build_preimage nonce_hex addr challenge
           = Inr (nonce_hex @ addr @ cid @ dif @ npm @ ls
                  @ (case challenge ''no_pre_mine_hour'' of None \<Rightarrow> '''' | Some h \<Rightarrow> h))"
  using assms by (simp add: build_preimage_def subscript_def get_default_def)

lemma submit_loop_exchanges:
  "exchanges_of (trace (snd (submit_loop e wk c n attempts sc w))) = exchanges_of (trace w)"
  using submit_loop_frame [of e wk c n attempts sc w] by (simp add: requests_def)

text \<open>The three outcomes of one pass, by the reply of the oracle client.\<close>

lemma attempt_body_no_result:
  assumes "build_preimage (format_016x (getrandbits64 e (nonce_draws w))) (address wk) challenge
             = Inr pre"
    and "no_result (daemon e (length (requests w))
            (get_default challenge ''no_pre_mine'' '''' @ ''|'' @ pre))"
  shows "\<exists>w'. attempt_body e wk challenge difficulty challenge_id w = Inr (False, w')
          \<and> hashes w' = hashes w \<and> solutions w' = solutions w
          \<and> stop_event w' = stop_event w \<and> acquires w' = acquires w
          \<and> requests w' = requests w @ [get_default challenge ''no_pre_mine'' '''' @ ''|'' @ pre]"
  using assms
  by (cases "daemon e (length (requests w)) (get_default challenge ''no_pre_mine'' '''' @ ''|'' @ pre)")
     (simp_all add: attempt_body_def hex64_nonce_def send_pre_and_recv_hash_def no_result_def
        Let_def requests_def sleep_def)

lemma attempt_body_miss:
  assumes "build_preimage (format_016x (getrandbits64 e (nonce_draws w))) (address wk) challenge
             = Inr pre"
    and "daemon e (length (requests w))
            (get_default challenge ''no_pre_mine'' '''' @ ''|'' @ pre) = Line hash_hex"
    and "\<not> hash_meets_difficulty hash_hex difficulty"
  shows "\<exists>w'. attempt_body e wk challenge difficulty challenge_id w = Inr (False, w')
          \<and> hashes w' = hashes w + 1 \<and> solutions w' = solutions w
          \<and> stop_event w' = stop_event w \<and> acquires w' = acquires w
          \<and> requests w' = requests w @ [get_default challenge ''no_pre_mine'' '''' @ ''|'' @ pre]"
  using assms
  by (simp add: attempt_body_def hex64_nonce_def send_pre_and_recv_hash_def Let_def
        add_hashes_def requests_def)

lemma attempt_body_hit:
  assumes "build_preimage (format_016x (getrandbits64 e (nonce_draws w))) (address wk) challenge
             = Inr pre"
    and "daemon e (length (requests w))
            (get_default challenge ''no_pre_mine'' '''' @ ''|'' @ pre) = Line hash_hex"
    and "hash_meets_difficulty hash_hex difficulty"
  shows "\<exists>w'. attempt_body e wk challenge difficulty challenge_id w = Inr (True, w')
          \<and> hashes w' = hashes w + 1 \<and> solutions w' = solutions w + 1
          \<and> (submit_on_find wk \<longrightarrow> stop_event w')
          \<and> (\<not> submit_on_find wk \<longrightarrow> stop_event w' = stop_event w)
          \<and> acquires w' = acquires w
          \<and> requests w' = requests w @ [get_default challenge ''no_pre_mine'' '''' @ ''|'' @ pre]"
  using assms
  by (simp add: attempt_body_def hex64_nonce_def send_pre_and_recv_hash_def Let_def
        submit_found_fields submit_found_stop add_hashes_def inc_solutions_def requests_def
        sleep_def submit_loop_exchanges)

text \<open>
  Claim C5. When the challenge has its four mandatory fields, the preimage is the
  concatenation, with nothing in between, of nonce, address, challenge_id, difficulty,
  no_pre_mine, latest_submission and no_pre_mine_hour (the empty string when that key is
  absent); the builder is a function of its three arguments. The payload that one pass of
  the attempt loop hands to the oracle client is no_pre_mine, one \<open>|\<close>, and the preimage
  of the fresh nonce.
\<close>

theorem preimage_and_payload_layout:
  assumes "challenge ''challenge_id'' = Some cid" and "challenge ''difficulty'' = Some dif"
    and "challenge ''no_pre_mine'' = Some npm" and "challenge ''latest_submission'' = Some ls"
  shows "build_preimage nonce_hex addr challenge
           = Inr (nonce_hex @ addr @ cid @ dif @ npm @ ls
                  @ (case challenge ''no_pre_mine_hour'' of None \<Rightarrow> '''' | Some h \<Rightarrow> h))
       \<and> (case attempt_body e wk challenge difficulty challenge_id w of
            Inl err \<Rightarrow> False
          | Inr (brk, w') \<Rightarrow>
              requests w'
                = requests w
                  @ [npm @ ''|'' @ format_016x (getrandbits64 e (nonce_draws w)) @ address wk
                     @ cid @ dif @ npm @ ls
                     @ (case challenge ''no_pre_mine_hour'' of None \<Rightarrow> '''' | Some h \<Rightarrow> h)])"
proof -
  let ?hour = "case challenge ''no_pre_mine_hour'' of None \<Rightarrow> '''' | Some h \<Rightarrow> h"
  let ?nonce = "format_016x (getrandbits64 e (nonce_draws w))"
  let ?pre = "?nonce @ address wk @ cid @ dif @ npm @ ls @ ?hour"
  have rom: "get_default challenge ''no_pre_mine'' '''' = npm"
    using assms(3) by (simp add: get_default_def)
  have pre: "build_preimage ?nonce (address wk) challenge = Inr ?pre"
    by (rule build_preimage_ok [OF assms])
  let ?r = "daemon e (length (requests w)) (get_default challenge ''no_pre_mine'' '''' @ ''|'' @ ?pre)"
  have "case attempt_body e wk challenge difficulty challenge_id w of
            Inl err \<Rightarrow> False
          | Inr (brk, w') \<Rightarrow> requests w' = requests w @ [npm @ ''|'' @ ?pre]"
  proof (cases "no_result ?r")
    case True
    from attempt_body_no_result [OF pre True, of difficulty challenge_id]
    show ?thesis by (auto simp: rom)
  next
    case False
    then obtain hash_hex where l: "?r = Line hash_hex"
      by (cases ?r) (simp_all add: no_result_def)
    show ?thesis
    proof (cases "hash_meets_difficulty hash_hex difficulty")
      case True
      from attempt_body_hit [OF pre l True, of challenge_id]
      show ?thesis by (auto simp: rom)
    next
      case False
      from attempt_body_miss [OF pre l False, of challenge_id]
      show ?thesis by (auto simp: rom)
    qed
  qed
  then show ?thesis using build_preimage_ok [OF assms, of nonce_hex addr] by simp
qed

theorem preimage_and_payload_layout_witness:
  "build_preimage ''00000000000000ff'' ''addr1''
       (challenge_with_deadline ''2099-12-31T23:59:59.000Z'')
     = Inr ''00000000000000ffaddr1D01C100000FFFFrom2099-12-31T23:59:59.000Z509681483''
   \<and> (case attempt_body
         (scripted_env (challenge_with_deadline ''2099-12-31T23:59:59.000Z'')
            (\<lambda>k. Broken) (\<lambda>k. Response 201 ''ok''))
         the_worker (challenge_with_deadline ''2099-12-31T23:59:59.000Z'')
         ''0000FFFF'' ''D01C10'' fresh_world of
        Inl err \<Rightarrow> False
      | Inr (brk, w') \<Rightarrow>
          requests w'
            = [''rom|0000000000000000addr1D01C100000FFFFrom2099-12-31T23:59:59.000Z509681483''])"
proof -
  let ?d = "challenge_with_deadline ''2099-12-31T23:59:59.000Z''"
  let ?e = "scripted_env ?d (\<lambda>k. Broken) (\<lambda>k. Response 201 ''ok'')"
  have 2: "?d ''challenge_id'' = Some ''D01C10''" "?d ''difficulty'' = Some ''0000FFFF''"
    "?d ''no_pre_mine'' = Some ''rom''" "?d ''latest_submission'' = Some ''2099-12-31T23:59:59.000Z''"
    by (simp_all add: challenge_with_deadline_def)
  have h: "?d ''no_pre_mine_hour'' = Some ''509681483''"
    by (simp add: challenge_with_deadline_def)
  have n: "format_016x (getrandbits64 ?e (nonce_draws fresh_world)) = ''0000000000000000''"
    by code_simp
  have a: "address the_worker = ''addr1''" by (simp add: the_worker_def)
  have r: "requests fresh_world = []" by (simp add: requests_def fresh_world_def)
  have s: "[] @ [''rom'' @ ''|'' @ ''0000000000000000'' @ ''addr1'' @ ''D01C10'' @ ''0000FFFF''
                 @ ''rom'' @ ''2099-12-31T23:59:59.000Z''
                 @ (case Some ''509681483'' of None \<Rightarrow> '''' | Some h \<Rightarrow> h)]
           = [''rom|0000000000000000addr1D01C100000FFFFrom2099-12-31T23:59:59.000Z509681483'']"
    by simp
  show ?thesis
    using preimage_and_payload_layout [OF 2, where nonce_hex = "''00000000000000ff''"
            and addr = "''addr1''" and e = ?e and wk = the_worker and difficulty = "''0000FFFF''"
            and challenge_id = "''D01C10''" and w = fresh_world]
    unfolding h n a r s by simp
qed

text \<open>The deadline check, where it works: a parsed deadline other than 0 that the clock
  has passed ends the batch before any exchange; an unparsed one is never checked.\<close>

lemma attempt_loop_expired:
  assumes "\<not> stop_event w" and "ts \<noteq> 0" and "time_time e (time_reads w) > ts"
  shows "attempt_loop e wk challenge difficulty challenge_id (Some ts) (Suc n) w
           = Inr (w\<lparr>time_reads := Suc (time_reads w)\<rparr>)"
  using assms by (simp add: expired_def)

lemma expired_unparsed: "expired e None w = (False, w)"
  by (simp add: expired_def)

text \<open>
  Claim C6 has a worker make no oracle exchange for a challenge whose deadline parses and
  lies in the past. The time check \<open>latest_ts and time.time() > latest_ts\<close> takes the
  timestamp 0.0 for no deadline: for the deadline \<open>1970-01-01T00:00:00Z\<close>, with the clock
  in 2025, the worker does exchange with the oracle.
\<close>

theorem epoch_deadline_is_not_checked:
  "parse_latest_ts
      (scripted_env (challenge_with_deadline ''1970-01-01T00:00:00Z'')
         (\<lambda>k. Line ''0000abcd'') (\<lambda>k. Response 201 ''ok''))
      ''1970-01-01T00:00:00Z'' = Some 0
   \<and> time_time
      (scripted_env (challenge_with_deadline ''1970-01-01T00:00:00Z'')
         (\<lambda>k. Line ''0000abcd'') (\<lambda>k. Response 201 ''ok'')) 0 > 0
   \<and> (case worker_pass
         (scripted_env (challenge_with_deadline ''1970-01-01T00:00:00Z'')
            (\<lambda>k. Line ''0000abcd'') (\<lambda>k. Response 201 ''ok''))
         the_worker fresh_world of
        Inl err \<Rightarrow> False
      | Inr w' \<Rightarrow>
          requests w'
            = [''rom|0000000000000000addr1D01C100000FFFFrom1970-01-01T00:00:00Z509681483''])"
  by code_simp

section \<open>The hash counter\<close>

lemma expired_never:
  assumes "\<forall>ts. latest_ts = Some ts \<longrightarrow> ts = 0 \<or> (\<forall>k. time_time e k \<le> ts)"
  shows "\<exists>w1. expired e latest_ts w = (False, w1) \<and> stop_event w1 = stop_event w
           \<and> hashes w1 = hashes w \<and> solutions w1 = solutions w \<and> acquires w1 = acquires w
           \<and> requests w1 = requests w"
proof (cases latest_ts)
  case None
  then show ?thesis by (simp add: expired_def)
next
  case (Some ts)
  then have "ts = 0 \<or> \<not> time_time e (time_reads w) > ts"
    using assms by (auto simp: not_less)
  then show ?thesis using Some by (auto simp: expired_def requests_def)
qed

lemma shift_silent:
  assumes "\<forall>i<Suc n. \<forall>p. no_result (f (k + i) p)"
  shows "\<forall>p. no_result (f k p)" and "\<forall>i<n. \<forall>p. no_result (f (Suc k + i) p)"
proof -
  show "\<forall>p. no_result (f k p)" using assms [rule_format, of 0] by simp
  show "\<forall>i<n. \<forall>p. no_result (f (Suc k + i) p)"
  proof (intro allI impI)
    fix i p assume "i < n"
    then have "Suc i < Suc n" by simp
    then have "no_result (f (k + Suc i) p)" using assms by blast
    then show "no_result (f (Suc k + i) p)" by simp
  qed
qed

text \<open>A batch in which the oracle client never returns a line leaves the counter alone.\<close>

lemma attempt_loop_silent:
  assumes "challenge ''challenge_id'' = Some cid" and "challenge ''difficulty'' = Some dif"
    and "challenge ''no_pre_mine'' = Some npm" and "challenge ''latest_submission'' = Some ls"
    and "\<forall>ts. latest_ts = Some ts \<longrightarrow> ts = 0 \<or> (\<forall>k. time_time e k \<le> ts)"
    and "\<not> stop_event w"
    and "\<forall>i<n. \<forall>p. no_result (daemon e (length (requests w) + i) p)"
  shows "\<exists>w'. attempt_loop e wk challenge difficulty challenge_id latest_ts n w = Inr w'
           \<and> \<not> stop_event w' \<and> hashes w' = hashes w \<and> solutions w' = solutions w
           \<and> acquires w' = acquires w \<and> length (requests w') = length (requests w) + n"
  using assms(6,7)
proof (induction n arbitrary: w)
  case 0
  then show ?case by simp
next
  case (Suc n)
  obtain w1 where w1: "expired e latest_ts w = (False, w1)" "stop_event w1 = stop_event w"
      "hashes w1 = hashes w" "solutions w1 = solutions w" "acquires w1 = acquires w"
      "requests w1 = requests w"
    using expired_never [OF assms(5), of w] by blast
  obtain pre where pre:
    "build_preimage (format_016x (getrandbits64 e (nonce_draws w1))) (address wk) challenge = Inr pre"
    using build_preimage_ok [OF assms(1-4)] by blast
  let ?p = "get_default challenge ''no_pre_mine'' '''' @ ''|'' @ pre"
  have s: "no_result (daemon e (length (requests w1)) ?p)"
    using shift_silent(1) [of n "daemon e" "length (requests w)", OF Suc.prems(2)] w1(6) by simp
  obtain w2 where w2: "attempt_body e wk challenge difficulty challenge_id w1 = Inr (False, w2)"
      "hashes w2 = hashes w1" "solutions w2 = solutions w1" "stop_event w2 = stop_event w1"
      "acquires w2 = acquires w1" "requests w2 = requests w1 @ [?p]"
    using attempt_body_no_result [OF pre s, of difficulty challenge_id] by blast
  have l: "length (requests w2) = Suc (length (requests w))" by (simp add: w2(6) w1(6))
  have n: "\<not> stop_event w2" using Suc.prems(1) by (simp add: w2(4) w1(2))
  have r: "\<forall>i<n. \<forall>p. no_result (daemon e (length (requests w2) + i) p)"
    unfolding l by (rule shift_silent(2) [of n "daemon e" "length (requests w)", OF Suc.prems(2)])
  obtain w' where w': "attempt_loop e wk challenge difficulty challenge_id latest_ts n w2 = Inr w'"
      "\<not> stop_event w'" "hashes w' = hashes w2" "solutions w' = solutions w2"
      "acquires w' = acquires w2" "length (requests w') = length (requests w2) + n"
    using Suc.IH [OF n r] by blast
  have "attempt_loop e wk challenge difficulty challenge_id latest_ts (Suc n) w = Inr w'"
    using Suc.prems(1) by (simp add: w1(1) w2(1) w'(1))
  then show ?case using w' by (simp add: l w2 w1)
qed

text \<open>A batch in which the first line comes on exchange \<open>m + 1\<close> and meets the difficulty
  ends there, with the counter one higher.\<close>

lemma attempt_loop_hit:
  assumes "challenge ''challenge_id'' = Some cid" and "challenge ''difficulty'' = Some dif"
    and "challenge ''no_pre_mine'' = Some npm" and "challenge ''latest_submission'' = Some ls"
    and "\<forall>ts. latest_ts = Some ts \<longrightarrow> ts = 0 \<or> (\<forall>k. time_time e k \<le> ts)"
    and "\<not> stop_event w"
    and "m < n"
    and "\<forall>i<m. \<forall>p. no_result (daemon e (length (requests w) + i) p)"
    and "\<forall>p. \<exists>h. daemon e (length (requests w) + m) p = Line h \<and> hash_meets_difficulty h difficulty"
  shows "\<exists>w'. attempt_loop e wk challenge difficulty challenge_id latest_ts n w = Inr w'
           \<and> hashes w' = hashes w + 1 \<and> solutions w' = solutions w + 1
           \<and> acquires w' = acquires w \<and> length (requests w') = length (requests w) + m + 1
           \<and> (submit_on_find wk \<longrightarrow> stop_event w')"
  using assms(6-9)
proof (induction m arbitrary: n w)
  case 0
  obtain n' where n': "n = Suc n'" using "0.prems"(2) by (cases n) auto
  obtain w1 where w1: "expired e latest_ts w = (False, w1)" "stop_event w1 = stop_event w"
      "hashes w1 = hashes w" "solutions w1 = solutions w" "acquires w1 = acquires w"
      "requests w1 = requests w"
    using expired_never [OF assms(5), of w] by blast
  obtain pre where pre:
    "build_preimage (format_016x (getrandbits64 e (nonce_draws w1))) (address wk) challenge = Inr pre"
    using build_preimage_ok [OF assms(1-4)] by blast
  let ?p = "get_default challenge ''no_pre_mine'' '''' @ ''|'' @ pre"
  obtain h where h: "daemon e (length (requests w1)) ?p = Line h" "hash_meets_difficulty h difficulty"
    using "0.prems"(4) w1(6) by (metis add.right_neutral)
  obtain w2 where w2: "attempt_body e wk challenge difficulty challenge_id w1 = Inr (True, w2)"
      "hashes w2 = hashes w1 + 1" "solutions w2 = solutions w1 + 1"
      "submit_on_find wk \<longrightarrow> stop_event w2"
      "acquires w2 = acquires w1" "requests w2 = requests w1 @ [?p]"
    using attempt_body_hit [OF pre h, of challenge_id] by blast
  have "attempt_loop e wk challenge difficulty challenge_id latest_ts n w = Inr w2"
    using "0.prems"(1) by (simp add: n' w1(1) w2(1))
  then show ?case using w2 w1 by simp
next
  case (Suc m)
  obtain n' where n': "n = Suc n'" "m < n'" using Suc.prems(2) by (cases n) auto
  obtain w1 where w1: "expired e latest_ts w = (False, w1)" "stop_event w1 = stop_event w"
      "hashes w1 = hashes w" "solutions w1 = solutions w" "acquires w1 = acquires w"
      "requests w1 = requests w"
    using expired_never [OF assms(5), of w] by blast
  obtain pre where pre:
    "build_preimage (format_016x (getrandbits64 e (nonce_draws w1))) (address wk) challenge = Inr pre"
    using build_preimage_ok [OF assms(1-4)] by blast
  let ?p = "get_default challenge ''no_pre_mine'' '''' @ ''|'' @ pre"
  have s: "no_result (daemon e (length (requests w1)) ?p)"
    using shift_silent(1) [of m "daemon e" "length (requests w)", OF Suc.prems(3)] w1(6) by simp
  obtain w2 where w2: "attempt_body e wk challenge difficulty challenge_id w1 = Inr (False, w2)"
      "hashes w2 = hashes w1" "solutions w2 = solutions w1" "stop_event w2 = stop_event w1"
      "acquires w2 = acquires w1" "requests w2 = requests w1 @ [?p]"
    using attempt_body_no_result [OF pre s, of difficulty challenge_id] by blast
  have l: "length (requests w2) = Suc (length (requests w))" by (simp add: w2(6) w1(6))
  have n: "\<not> stop_event w2" using Suc.prems(1) by (simp add: w2(4) w1(2))
  have r: "\<forall>i<m. \<forall>p. no_result (daemon e (length (requests w2) + i) p)"
    unfolding l by (rule shift_silent(2) [of m "daemon e" "length (requests w)", OF Suc.prems(3)])
  have t: "\<forall>p. \<exists>h. daemon e (length (requests w2) + m) p = Line h \<and> hash_meets_difficulty h difficulty"
    using Suc.prems(4) by (simp add: l)
  obtain w' where w': "attempt_loop e wk challenge difficulty challenge_id latest_ts n' w2 = Inr w'"
      "hashes w' = hashes w2 + 1" "solutions w' = solutions w2 + 1"
      "acquires w' = acquires w2" "length (requests w') = length (requests w2) + m + 1"
      "submit_on_find wk \<longrightarrow> stop_event w'"
    using Suc.IH [OF n n'(2) r t] by blast
  have "attempt_loop e wk challenge difficulty challenge_id latest_ts n w = Inr w'"
    using Suc.prems(1) by (simp add: n'(1) w1(1) w2(1) w'(1))
  then show ?case using w' by (simp add: l w2 w1)
qed

text \<open>One pass of the main loop is one batch on the published challenge.\<close>

lemma worker_pass_batch:
  assumes "challenge_getter e (acquires w) = Some challenge"
    and "challenge ''challenge_id'' = Some cid" and "challenge ''difficulty'' = Some dif"
    and "challenge ''latest_submission'' = Some ls"
  shows "worker_pass e wk w
           = attempt_loop e wk challenge dif cid (parse_latest_ts e ls) NONCE_BATCH
               (w\<lparr>acquires := Suc (acquires w)\<rparr>)"
  using assms by (simp add: worker_pass_def subscript_def Let_def)

text \<open>Once some number of passes ends with the stop signal set, the worker has returned.\<close>

lemma run_after_passes:
  "worker_passes k e wk w = Inr w' \<Longrightarrow> stop_event w' \<Longrightarrow> run e wk w = Some (Inr w')"
proof (induction k arbitrary: w)
  case 0
  then show ?case by (subst run.simps) simp
next
  case (Suc k)
  show ?case
  proof (cases "stop_event w")
    case True
    then show ?thesis using Suc.prems by (subst run.simps) simp
  next
    case False
    then obtain w1 where w1: "worker_pass e wk w = Inr w1" "worker_passes k e wk w1 = Inr w'"
      using Suc.prems(1) by (auto split: sum.splits)
    have "run e wk w1 = Some (Inr w')" by (rule Suc.IH [OF w1(2) Suc.prems(2)])
    then show ?thesis using False w1(1) by (subst run.simps) simp
  qed
qed

lemma worker_passes_step:
  "\<not> stop_event w \<Longrightarrow> worker_pass e wk w = Inr w1
     \<Longrightarrow> worker_passes (Suc k) e wk w = worker_passes k e wk w1"
  by simp

lemma worker_passes_hit:
  assumes "\<forall>k. challenge_getter e k = Some challenge"
    and "challenge ''challenge_id'' = Some cid" and "challenge ''difficulty'' = Some dif"
    and "challenge ''no_pre_mine'' = Some npm" and "challenge ''latest_submission'' = Some ls"
    and "\<forall>ts. parse_latest_ts e ls = Some ts \<longrightarrow> ts = 0 \<or> (\<forall>k. time_time e k \<le> ts)"
    and "\<not> stop_event w"
    and "\<forall>i<m. \<forall>p. no_result (daemon e (length (requests w) + i) p)"
    and "\<forall>p. \<exists>h. daemon e (length (requests w) + m) p = Line h \<and> hash_meets_difficulty h dif"
  shows "\<exists>w'. worker_passes (m div NONCE_BATCH + 1) e wk w = Inr w'
           \<and> hashes w' = hashes w + 1
           \<and> length (requests w') = length (requests w) + m + 1
           \<and> (submit_on_find wk \<longrightarrow> stop_event w')"
  using assms(7-9)
proof (induction m arbitrary: w rule: less_induct)
  case (less m)
  let ?w0 = "w\<lparr>acquires := Suc (acquires w)\<rparr>"
  have p: "worker_pass e wk w
             = attempt_loop e wk challenge dif cid (parse_latest_ts e ls) NONCE_BATCH ?w0"
    using assms(1) by (intro worker_pass_batch [OF _ assms(2,3,5)]) simp
  have f: "\<not> stop_event ?w0" "requests ?w0 = requests w" "hashes ?w0 = hashes w"
    using less.prems(1) by (simp_all add: requests_def)
  show ?case
  proof (cases "m < NONCE_BATCH")
    case True
    obtain w' where w': "attempt_loop e wk challenge dif cid (parse_latest_ts e ls) NONCE_BATCH ?w0
                           = Inr w'"
        "hashes w' = hashes ?w0 + 1" "length (requests w') = length (requests ?w0) + m + 1"
        "submit_on_find wk \<longrightarrow> stop_event w'"
      using attempt_loop_hit [where difficulty = dif and challenge_id = cid and wk = wk,
              OF assms(2-6) f(1) True]
        less.prems(2,3) unfolding f(2) by blast
    have d: "m div NONCE_BATCH + 1 = Suc 0" using True by simp
    have "worker_passes (m div NONCE_BATCH + 1) e wk w = Inr w'"
      unfolding d using less.prems(1) by (simp add: p w'(1))
    then show ?thesis using w' f by simp
  next
    case False
    then have ge: "NONCE_BATCH \<le> m" by simp
    have b: "0 < NONCE_BATCH" by (simp add: NONCE_BATCH_def)
    have s: "\<forall>i<NONCE_BATCH. \<forall>p. no_result (daemon e (length (requests ?w0) + i) p)"
      using less.prems(2) ge unfolding f(2) by auto
    obtain w1 where w1: "attempt_loop e wk challenge dif cid (parse_latest_ts e ls) NONCE_BATCH ?w0
                           = Inr w1"
        "\<not> stop_event w1" "hashes w1 = hashes ?w0"
        "length (requests w1) = length (requests ?w0) + NONCE_BATCH"
      using attempt_loop_silent [where difficulty = dif and challenge_id = cid and wk = wk,
              OF assms(2-6) f(1) s] by blast
    let ?m = "m - NONCE_BATCH"
    have lt: "?m < m" using ge b by simp
    have l: "length (requests w1) + ?m = length (requests w) + m"
      using ge by (simp add: w1(4) f(2))
    have s1: "\<forall>i<?m. \<forall>p. no_result (daemon e (length (requests w1) + i) p)"
    proof (intro allI impI)
      fix i p assume "i < ?m"
      then have "NONCE_BATCH + i < m" by simp
      then have "no_result (daemon e (length (requests w) + (NONCE_BATCH + i)) p)"
        using less.prems(2) by blast
      then show "no_result (daemon e (length (requests w1) + i) p)"
        by (simp add: w1(4) f(2) add.assoc)
    qed
    have t1: "\<forall>p. \<exists>h. daemon e (length (requests w1) + ?m) p = Line h
                \<and> hash_meets_difficulty h dif"
      unfolding l by (rule less.prems(3))
    obtain w' where w': "worker_passes (?m div NONCE_BATCH + 1) e wk w1 = Inr w'"
        "hashes w' = hashes w1 + 1" "length (requests w') = length (requests w1) + ?m + 1"
        "submit_on_find wk \<longrightarrow> stop_event w'"
      using less.IH [OF lt w1(2) s1 t1] by blast
    have d: "m div NONCE_BATCH + 1 = Suc (?m div NONCE_BATCH + 1)"
      using ge b by (simp add: le_div_geq)
    have pw: "worker_pass e wk w = Inr w1" by (simp add: p w1(1))
    have "worker_passes (Suc (?m div NONCE_BATCH + 1)) e wk w
            = worker_passes (?m div NONCE_BATCH + 1) e wk w1"
      by (rule worker_passes_step [OF less.prems(1) pw])
    then have "worker_passes (m div NONCE_BATCH + 1) e wk w = Inr w'"
      using w'(1) by (simp only: d)
    then show ?thesis using w' l by (simp add: w1(3) f(3))
  qed
qed

text \<open>
  Claim C4, as stated, ends with a counter of \<open>N - 1\<close>. It fails: with no response on
  requests 1 and 2 and a hash that meets the difficulty on request 3, the worker has made
  three exchanges and the counter is 1, not 2.
\<close>

theorem hash_counter_is_not_n_minus_1_counterexample:
  "(case worker_pass
       (scripted_env (challenge_with_deadline ''2099-12-31T23:59:59.000Z'')
          (\<lambda>k. if k = 0 then Broken else if k = 1 then Unreachable else Line ''0000abcd'')
          (\<lambda>k. Response 201 ''ok''))
       the_worker fresh_world of
      Inl err \<Rightarrow> False
    | Inr w' \<Rightarrow> length (requests w') = 3 \<and> hashes w' = 1 \<and> hashes w' \<noteq> 3 - 1)
   \<and> hash_meets_difficulty ''0000abcd'' ''0000FFFF''"
  by code_simp

text \<open>
  Claim C4, amended. In one pass of the attempt loop, an exchange that returns no result
  leaves the hash counter as it is, and an exchange that returns a line adds exactly one to
  it, whether or not the line meets the difficulty. Consequently, for a worker running
  alone on a published challenge that does not expire, if requests 1 to \<open>N - 1\<close> get no
  response and request \<open>N\<close> gets a hash that meets the difficulty, then after those \<open>N\<close>
  exchanges the counter is exactly 1 higher than before (1 from a reset counter): the
  \<open>N - 1\<close> failed exchanges are not counted, the last one is. With submission on find,
  the worker then returns in that state.
\<close>

theorem hash_counter_counts_lines_only:
  assumes "\<forall>k. challenge_getter e k = Some challenge"
    and "challenge ''challenge_id'' = Some cid" and "challenge ''difficulty'' = Some dif"
    and "challenge ''no_pre_mine'' = Some npm" and "challenge ''latest_submission'' = Some ls"
    and "\<forall>ts. parse_latest_ts e ls = Some ts \<longrightarrow> ts = 0 \<or> (\<forall>k. time_time e k \<le> ts)"
    and "\<not> stop_event w"
    and "1 \<le> N"
    and "\<forall>i<N - 1. \<forall>p. no_result (daemon e (length (requests w) + i) p)"
    and "\<forall>p. \<exists>h. daemon e (length (requests w) + (N - 1)) p = Line h
                \<and> hash_meets_difficulty h dif"
  shows "(\<forall>w0. case attempt_body e wk challenge dif cid w0 of
                 Inl err \<Rightarrow> False
               | Inr (brk, w1) \<Rightarrow>
                   hashes w1 = hashes w0
                     + (if no_result (daemon e (length (requests w0)) (last (requests w1)))
                        then 0 else 1))
       \<and> (\<exists>w'. worker_passes ((N - 1) div NONCE_BATCH + 1) e wk w = Inr w'
             \<and> length (requests w') = length (requests w) + N
             \<and> hashes w' = hashes w + 1
             \<and> (submit_on_find wk \<longrightarrow> run e wk w = Some (Inr w')))"
proof -
  have step: "case attempt_body e wk challenge dif cid w0 of
                 Inl err \<Rightarrow> False
               | Inr (brk, w1) \<Rightarrow>
                   hashes w1 = hashes w0
                     + (if no_result (daemon e (length (requests w0)) (last (requests w1)))
                        then 0 else 1)" for w0
  proof -
    obtain pre where pre:
      "build_preimage (format_016x (getrandbits64 e (nonce_draws w0))) (address wk) challenge
         = Inr pre"
      using build_preimage_ok [OF assms(2-5)] by blast
    let ?p = "get_default challenge ''no_pre_mine'' '''' @ ''|'' @ pre"
    let ?r = "daemon e (length (requests w0)) ?p"
    show ?thesis
    proof (cases "no_result ?r")
      case True
      from attempt_body_no_result [OF pre True, where difficulty = dif and challenge_id = cid] True
      show ?thesis by auto
    next
      case False
      then obtain hash_hex where l: "?r = Line hash_hex"
        by (cases ?r) (simp_all add: no_result_def)
      show ?thesis
      proof (cases "hash_meets_difficulty hash_hex dif")
        case True
        from attempt_body_hit [OF pre l True, where challenge_id = cid] False
        show ?thesis by auto
      next
        case m: False
        from attempt_body_miss [OF pre l m, where challenge_id = cid] False
        show ?thesis by auto
      qed
    qed
  qed
  obtain w' where w': "worker_passes ((N - 1) div NONCE_BATCH + 1) e wk w = Inr w'"
      "hashes w' = hashes w + 1" "length (requests w') = length (requests w) + (N - 1) + 1"
      "submit_on_find wk \<longrightarrow> stop_event w'"
    using worker_passes_hit [where wk = wk, OF assms(1-7) assms(9,10)] by blast
  have r: "submit_on_find wk \<longrightarrow> run e wk w = Some (Inr w')"
    using run_after_passes [OF w'(1)] w'(4) by blast
  have "length (requests w') = length (requests w) + N" using w'(3) assms(8) by simp
  then show ?thesis using step w'(1,2) r by blast
qed

theorem hash_counter_counts_lines_only_witness:
  "\<exists>w'. worker_passes 1
           (scripted_env (challenge_with_deadline ''2099-12-31T23:59:59.000Z'')
              (\<lambda>k. if k = 0 then Broken else if k = 1 then Unreachable else Line ''0000abcd'')
              (\<lambda>k. Response 201 ''ok''))
           the_worker fresh_world = Inr w'
        \<and> length (requests w') = 3
        \<and> hashes w' = 1
        \<and> run (scripted_env (challenge_with_deadline ''2099-12-31T23:59:59.000Z'')
              (\<lambda>k. if k = 0 then Broken else if k = 1 then Unreachable else Line ''0000abcd'')
              (\<lambda>k. Response 201 ''ok''))
             the_worker fresh_world = Some (Inr w')"
proof -
  let ?d = "challenge_with_deadline ''2099-12-31T23:59:59.000Z''"
  let ?e = "scripted_env ?d
              (\<lambda>k. if k = 0 then Broken else if k = 1 then Unreachable else Line ''0000abcd'')
              (\<lambda>k. Response 201 ''ok'')"
  have g: "\<forall>k. challenge_getter ?e k = Some ?d" by (simp add: scripted_env_def)
  have k: "?d ''challenge_id'' = Some ''D01C10''" "?d ''difficulty'' = Some ''0000FFFF''"
    "?d ''no_pre_mine'' = Some ''rom''" "?d ''latest_submission'' = Some ''2099-12-31T23:59:59.000Z''"
    by (simp_all add: challenge_with_deadline_def)
  have ts: "parse_latest_ts ?e ''2099-12-31T23:59:59.000Z'' = Some 4102444799" by code_simp
  have t: "\<forall>ts. parse_latest_ts ?e ''2099-12-31T23:59:59.000Z'' = Some ts
             \<longrightarrow> ts = 0 \<or> (\<forall>k. time_time ?e k \<le> ts)"
    unfolding ts by (simp add: scripted_env_def)
  have s: "\<not> stop_event fresh_world" by (simp add: fresh_world_def)
  have n: "(1::nat) \<le> 3" by simp
  have r: "length (requests fresh_world) = 0" by (simp add: requests_def fresh_world_def)
  have q: "\<forall>i<3 - 1. \<forall>p. no_result (daemon ?e (length (requests fresh_world) + i) p)"
    unfolding r by (simp add: scripted_env_def no_result_def)
  have m: "hash_meets_difficulty ''0000abcd'' ''0000FFFF''" by code_simp
  have h: "\<forall>p. \<exists>h. daemon ?e (length (requests fresh_world) + (3 - 1)) p = Line h
             \<and> hash_meets_difficulty h ''0000FFFF''"
    unfolding r using m by (simp add: scripted_env_def)
  have b: "(3 - 1) div NONCE_BATCH + 1 = (1::nat)" by (simp add: NONCE_BATCH_def)
  have z: "hashes fresh_world = 0" by (simp add: fresh_world_def)
  have o: "submit_on_find the_worker" by (simp add: the_worker_def)
  show ?thesis
    using hash_counter_counts_lines_only [where wk = the_worker, OF g k t s n q h, THEN conjunct2]
    unfolding b r z using o by simp
qed

end
